theory Spec2Isabelle
  imports Main
begin

section \<open>Slot configurations (types.ts)\<close>

text \<open>
  The slot configuration is a union of three interfaces discriminated by the field
  \<open>type\<close>. A field declared with \<open>?\<close> is missing from the object, or present with the
  value \<open>undefined\<close>, or holds a value; \<open>x ?? d\<close> takes the first two alike, \<open>key in obj\<close>
  does not. Numbers (\<open>margin\<close>, the reward amount) are only handed on, never computed
  with.
\<close>

type_synonym js_number = int

datatype 'a optional = Absent | Undefined | Present 'a

datatype AdSlotType = banner | interstitial | rewarded

datatype BannerPosition = top_position | bottom_position

datatype BannerSize =
  adaptive | banner_size | full_banner | large_banner | leaderboard | medium_rectangle | smart

datatype AdSlotConfig =
    BannerSlotConfig (adId: string) (position: "BannerPosition optional")
      (size: "BannerSize optional") (margin: "js_number optional") (isTesting: "bool optional")
  | InterstitialSlotConfig (adId: string) (isTesting: "bool optional")
  | RewardedSlotConfig (adId: string) (isTesting: "bool optional")

fun slot_type :: "AdSlotConfig \<Rightarrow> AdSlotType" where
  "slot_type (BannerSlotConfig a p s m t) = banner"
| "slot_type (InterstitialSlotConfig a t) = interstitial"
| "slot_type (RewardedSlotConfig a t) = rewarded"


section \<open>The registry object (slot-registry.ts)\<close>

text \<open>
  The registry is the object literal \<open>{}\<close>: an ordinary object whose prototype is
  \<open>Object.prototype\<close>. The source reads it with \<open>registry[id]\<close>, tests it with
  \<open>id in registry\<close> and writes it with \<open>registry[id] = config\<close>; all three follow the
  prototype chain. The model therefore keeps the object's own properties and its
  prototype apart. The prototype is \<open>Object.prototype\<close> (\<open>None\<close>) until an assignment to
  the key \<open>__proto__\<close> runs the inherited setter, which replaces the prototype by the
  assigned configuration object and creates no own property.
\<close>

record js_object =
  own :: "string \<rightharpoonup> AdSlotConfig"
  proto :: "AdSlotConfig option"

text \<open>What a property read can yield.\<close>

datatype js_value =
    JUndefined
  | JConfig AdSlotConfig
  | JObjectPrototype
  | JBuiltin string
  | JString string
  | JNumber js_number
  | JBoolean bool

text \<open>The string-keyed properties of \<open>Object.prototype\<close>.\<close>

definition object_prototype_keys :: "string list" where
  "object_prototype_keys =
     [''constructor'', ''__defineGetter__'', ''__defineSetter__'', ''hasOwnProperty'',
      ''__lookupGetter__'', ''__lookupSetter__'', ''isPrototypeOf'',
      ''propertyIsEnumerable'', ''toString'', ''valueOf'', ''__proto__'',
      ''toLocaleString'']"

fun position_name :: "BannerPosition \<Rightarrow> string" where
  "position_name top_position = ''top''"
| "position_name bottom_position = ''bottom''"

fun size_name :: "BannerSize \<Rightarrow> string" where
  "size_name adaptive = ''adaptive''"
| "size_name banner_size = ''banner''"
| "size_name full_banner = ''full_banner''"
| "size_name large_banner = ''large_banner''"
| "size_name leaderboard = ''leaderboard''"
| "size_name medium_rectangle = ''medium_rectangle''"
| "size_name smart = ''smart''"

fun type_name :: "AdSlotType \<Rightarrow> string" where
  "type_name banner = ''banner''"
| "type_name interstitial = ''interstitial''"
| "type_name rewarded = ''rewarded''"

text \<open>
  The own properties of a configuration object, by key: \<open>None\<close> when the object has no
  such property; a property that is present with the value \<open>undefined\<close> reads as
  \<open>JUndefined\<close>.
\<close>

definition optional_property :: "('a \<Rightarrow> js_value) \<Rightarrow> 'a optional \<Rightarrow> js_value option" where
  "optional_property f x =
     (case x of Absent \<Rightarrow> None | Undefined \<Rightarrow> Some JUndefined | Present v \<Rightarrow> Some (f v))"

definition config_property :: "AdSlotConfig \<Rightarrow> string \<Rightarrow> js_value option" where
  "config_property c k =
     (if k = ''type'' then Some (JString (type_name (slot_type c)))
      else if k = ''adId'' then Some (JString (adId c))
      else if k = ''isTesting'' then optional_property JBoolean (isTesting c)
      else (case c of
              BannerSlotConfig a p s m t \<Rightarrow>
                (if k = ''position'' then optional_property (\<lambda>x. JString (position_name x)) p
                 else if k = ''size'' then optional_property (\<lambda>x. JString (size_name x)) s
                 else if k = ''margin'' then optional_property JNumber m
                 else None)
            | _ \<Rightarrow> None))"

definition inherited_property :: "js_object \<Rightarrow> string \<Rightarrow> js_value option" where
  "inherited_property r k =
     (case proto r of None \<Rightarrow> None | Some c \<Rightarrow> config_property c k)"

text \<open>\<open>registry[id]\<close>\<close>

definition js_get :: "js_object \<Rightarrow> string \<Rightarrow> js_value" where
  "js_get r k =
     (case own r k of
        Some c \<Rightarrow> JConfig c
      | None \<Rightarrow>
          (if k = ''__proto__''
           then (case proto r of Some c \<Rightarrow> JConfig c | None \<Rightarrow> JObjectPrototype)
           else (case inherited_property r k of
                   Some v \<Rightarrow> v
                 | None \<Rightarrow> if k \<in> set object_prototype_keys then JBuiltin k else JUndefined)))"

text \<open>\<open>id in registry\<close>\<close>

definition js_in :: "js_object \<Rightarrow> string \<Rightarrow> bool" where
  "js_in r k =
     (own r k \<noteq> None \<or> inherited_property r k \<noteq> None \<or> k \<in> set object_prototype_keys)"

text \<open>\<open>registry[id] = config\<close>\<close>

definition js_set :: "js_object \<Rightarrow> string \<Rightarrow> AdSlotConfig \<Rightarrow> js_object" where
  "js_set r k c =
     (if k = ''__proto__'' then r\<lparr>proto := Some c\<rparr> else r\<lparr>own := (own r)(k \<mapsto> c)\<rparr>)"

text \<open>\<open>const registry: SlotRegistry = {}\<close>\<close>

definition empty_registry :: js_object where
  "empty_registry = \<lparr>own = Map.empty, proto = None\<rparr>"

text \<open>
  \<open>defineSlots\<close> loops over \<open>Object.entries(slots)\<close>; the argument of the model is that
  list of entries, in the order of the loop.
\<close>

definition defineSlots :: "(string \<times> AdSlotConfig) list \<Rightarrow> js_object \<Rightarrow> js_object" where
  "defineSlots slots r = fold (\<lambda>(sid, config) r'. js_set r' sid config) slots r"

definition defineSlot :: "string \<Rightarrow> AdSlotConfig \<Rightarrow> js_object \<Rightarrow> js_object" where
  "defineSlot sid config r = js_set r sid config"

definition getSlot :: "js_object \<Rightarrow> string \<Rightarrow> js_value" where
  "getSlot r sid = js_get r sid"

definition hasSlot :: "js_object \<Rightarrow> string \<Rightarrow> bool" where
  "hasSlot r sid = js_in r sid"

text \<open>A sequence of definitions, run from the empty registry.\<close>

datatype registry_call =
    DefineSlot string AdSlotConfig
  | DefineSlots "(string \<times> AdSlotConfig) list"

fun run_call :: "registry_call \<Rightarrow> js_object \<Rightarrow> js_object" where
  "run_call (DefineSlot sid config) r = defineSlot sid config r"
| "run_call (DefineSlots slots) r = defineSlots slots r"

definition run_calls :: "registry_call list \<Rightarrow> js_object \<Rightarrow> js_object" where
  "run_calls cs r = fold run_call cs r"

text \<open>
  The definitions a sequence of calls makes, oldest first, and the configuration the
  last definition of an id supplied.
\<close>

fun definitions_of :: "registry_call \<Rightarrow> (string \<times> AdSlotConfig) list" where
  "definitions_of (DefineSlot sid config) = [(sid, config)]"
| "definitions_of (DefineSlots slots) = slots"

definition last_definition :: "registry_call list \<Rightarrow> string \<Rightarrow> AdSlotConfig option" where
  "last_definition cs sid = map_of (rev (concat (map definitions_of cs))) sid"


section \<open>The external capabilities (ad-service.ts)\<close>

text \<open>
  The enumerations of the wrapped plugin that the service names.
\<close>

datatype BannerAdSize =
  ADAPTIVE_BANNER | BANNER | FULL_BANNER | LARGE_BANNER | LEADERBOARD | MEDIUM_RECTANGLE
  | SMART_BANNER

datatype BannerAdPosition = TOP_CENTER | CENTER | BOTTOM_CENTER

datatype AdmobConsentStatus = NOT_REQUIRED | OBTAINED | REQUIRED | UNKNOWN

datatype AdmobConsentDebugGeography = DISABLED | EEA | NOT_EEA

datatype plugin_event = BannerAd_FailedToLoad | InterstitialAd_FailedToLoad

text \<open>
  Every request the service sends out of the module: the two dynamic imports, the host
  detection, and the methods of the plugin with the arguments they are given.
\<close>

datatype ext_call =
    ImportCapacitorCore
  | Capacitor_isNativePlatform
  | ImportAdMob
  | AdMob_initialize "string list option" bool
  | AdMob_requestConsentInfo AdmobConsentDebugGeography "string list option"
  | AdMob_showConsentForm
  | AdMob_addListener plugin_event
  | AdMob_showBanner string BannerAdSize BannerAdPosition js_number bool
  | AdMob_hideBanner
  | AdMob_removeBanner
  | AdMob_prepareInterstitial string bool
  | AdMob_showInterstitial
  | AdMob_prepareRewardVideoAd string bool
  | AdMob_showRewardVideoAd

text \<open>
  What a request can do: resolve with a value, reject, throw before it returns a
  promise, or never settle. One record holds the values the service reads from the
  answers; each request reads the fields of its own answer.
\<close>

record payload =
  native_platform :: bool
  consent_form_available :: bool
  consent_status :: AdmobConsentStatus
  reward_amount :: js_number
  reward_type :: string

datatype outcome = Resolves payload | RejectsWith string | ThrowsWith string | NeverSettles

text \<open>
  The outside world decides the outcome of a request from all the requests sent so far,
  the last element being the request itself.
\<close>

type_synonym world = "ext_call list \<Rightarrow> outcome"

datatype log_entry = Console_warn "string list" | Console_error "string list"

text \<open>Calls the service starts and never awaits.\<close>

datatype task = Detached_hide string | Timeout_prepareInterstitial string "bool option"

text \<open>
  The module's variables (\<open>isInitialized\<close>, \<open>adsRemoved\<close>, \<open>currentBannerSlot\<close>, the
  registry, and whether the lazily imported \<open>AdMob\<close> binding is set), and what the module
  has done to the outside: the requests sent, the console lines written, the calls
  started without awaiting them.
\<close>

record state =
  isInitialized :: bool
  adsRemoved :: bool
  currentBannerSlot :: "string option"
  registry :: js_object
  AdMob :: bool
  trace :: "ext_call list"
  console :: "log_entry list"
  detached :: "task list"

definition initial_state :: state where
  "initial_state =
     \<lparr>isInitialized = False, adsRemoved = False, currentBannerSlot = None,
      registry = empty_registry, AdMob = False, trace = [], console = [], detached = []\<rparr>"

text \<open>
  An asynchronous function returns a value, rejects with an error (here its message),
  or stays suspended at an await for ever.
\<close>

datatype 'a completion = Returned 'a | Raised string | Suspended

type_synonym 'a action = "state \<Rightarrow> 'a completion \<times> state"

definition returning :: "'a \<Rightarrow> 'a action" where
  "returning x st = (Returned x, st)"

definition and_then :: "'a action \<Rightarrow> ('a \<Rightarrow> 'b action) \<Rightarrow> 'b action" where
  "and_then m f st =
     (case m st of
        (Returned x, st') \<Rightarrow> f x st'
      | (Raised e, st') \<Rightarrow> (Raised e, st')
      | (Suspended, st') \<Rightarrow> (Suspended, st'))"

definition try_catch :: "'a action \<Rightarrow> (string \<Rightarrow> 'a action) \<Rightarrow> 'a action" where
  "try_catch m h st =
     (case m st of
        (Raised e, st') \<Rightarrow> h e st'
      | (Returned x, st') \<Rightarrow> (Returned x, st')
      | (Suspended, st') \<Rightarrow> (Suspended, st'))"

text \<open>Reading the module's variables, and assigning to them.\<close>

definition reading :: "(state \<Rightarrow> 'b) \<Rightarrow> ('b \<Rightarrow> 'a action) \<Rightarrow> 'a action" where
  "reading g f st = f (g st) st"

definition update :: "(state \<Rightarrow> state) \<Rightarrow> unit action" where
  "update f st = (Returned (), f st)"

definition console_log :: "log_entry \<Rightarrow> unit action" where
  "console_log l = update (\<lambda>st. st\<lparr>console := console st @ [l]\<rparr>)"

text \<open>\<open>await f(...)\<close>, and a synchronous call whose value is used.\<close>

definition awaited :: "world \<Rightarrow> ext_call \<Rightarrow> payload action" where
  "awaited w c st =
     (let st' = st\<lparr>trace := trace st @ [c]\<rparr>
      in case w (trace st') of
           Resolves p \<Rightarrow> (Returned p, st')
         | RejectsWith e \<Rightarrow> (Raised e, st')
         | ThrowsWith e \<Rightarrow> (Raised e, st')
         | NeverSettles \<Rightarrow> (Suspended, st'))"

text \<open>\<open>f(...)\<close> with the returned promise dropped: only a synchronous throw is seen.\<close>

definition called :: "world \<Rightarrow> ext_call \<Rightarrow> unit action" where
  "called w c st =
     (let st' = st\<lparr>trace := trace st @ [c]\<rparr>
      in case w (trace st') of
           ThrowsWith e \<Rightarrow> (Raised e, st')
         | _ \<Rightarrow> (Returned (), st'))"

text \<open>\<open>if (AdMob) return;\<close> then the dynamic import, which binds the module variables.\<close>

definition loadAdMob :: "world \<Rightarrow> unit action" where
  "loadAdMob w =
     reading AdMob (\<lambda>bound.
       if bound then returning ()
       else and_then (awaited w ImportAdMob) (\<lambda>admob. update (\<lambda>st. st\<lparr>AdMob := True\<rparr>)))"

fun BANNER_SIZE_MAP :: "BannerSize \<Rightarrow> BannerAdSize" where
  "BANNER_SIZE_MAP adaptive = ADAPTIVE_BANNER"
| "BANNER_SIZE_MAP banner_size = BANNER"
| "BANNER_SIZE_MAP full_banner = FULL_BANNER"
| "BANNER_SIZE_MAP large_banner = LARGE_BANNER"
| "BANNER_SIZE_MAP leaderboard = LEADERBOARD"
| "BANNER_SIZE_MAP medium_rectangle = MEDIUM_RECTANGLE"
| "BANNER_SIZE_MAP smart = SMART_BANNER"

definition toBannerAdSize :: "BannerSize \<Rightarrow> BannerAdSize" where
  "toBannerAdSize sz = BANNER_SIZE_MAP sz"

definition toBannerAdPosition :: "BannerPosition \<Rightarrow> BannerAdPosition" where
  "toBannerAdPosition p = (if p = top_position then TOP_CENTER else BOTTOM_CENTER)"

definition isNative :: "world \<Rightarrow> bool action" where
  "isNative w =
     and_then (awaited w ImportCapacitorCore) (\<lambda>core.
     and_then (awaited w Capacitor_isNativePlatform) (\<lambda>p.
     returning (native_platform p)))"


section \<open>The service (ad-service.ts)\<close>

record AdSlotsInitOptions =
  testingDevices :: "string list option"
  initializeForTesting :: "bool option"
  consentDebugGeography :: "AdmobConsentDebugGeography option"
  consentTestDevices :: "string list option"
  global_isTesting :: "bool option"

text \<open>\<open>String.prototype.includes\<close>\<close>

fun starts_with :: "string \<Rightarrow> string \<Rightarrow> bool" where
  "starts_with s [] = True"
| "starts_with [] (p # ps) = False"
| "starts_with (c # cs) (p # ps) = (c = p \<and> starts_with cs ps)"

fun includes_str :: "string \<Rightarrow> string \<Rightarrow> bool" where
  "includes_str [] p = (p = [])"
| "includes_str (c # cs) p = (starts_with (c # cs) p \<or> includes_str cs p)"

definition consent_flow :: "world \<Rightarrow> AdSlotsInitOptions \<Rightarrow> unit action" where
  "consent_flow w options =
     and_then
       (awaited w
          (AdMob_requestConsentInfo
             (if consentDebugGeography options = Some EEA then EEA
              else if consentDebugGeography options = Some DISABLED then DISABLED
              else NOT_EEA)
             (case consentTestDevices options of
                Some ds \<Rightarrow> if ds \<noteq> [] then Some ds else None
              | None \<Rightarrow> None)))
       (\<lambda>consentInfo.
          if consent_form_available consentInfo \<and>
             (consent_status consentInfo = REQUIRED \<or> consent_status consentInfo = UNKNOWN)
          then and_then (awaited w AdMob_showConsentForm) (\<lambda>form. returning ())
          else returning ())"

text \<open>
  The two listeners only write to the console when the plugin later reports a failed
  load; the model records their registration.
\<close>

definition initialize :: "world \<Rightarrow> AdSlotsInitOptions \<Rightarrow> unit action" where
  "initialize w options =
     and_then (isNative w) (\<lambda>n.
       if \<not> n then returning ()
       else
         and_then (loadAdMob w) (\<lambda>loaded.
           try_catch
             (and_then
                (awaited w
                   (AdMob_initialize (testingDevices options)
                      (case initializeForTesting options of
                         Some b \<Rightarrow> b
                       | None \<Rightarrow>
                           (case testingDevices options of
                              Some ds \<Rightarrow> ds \<noteq> []
                            | None \<Rightarrow> False))))
                (\<lambda>ready.
                   and_then
                     (try_catch (consent_flow w options)
                        (\<lambda>msg.
                           if \<not> includes_str msg ''no form(s) configured'' \<and>
                              \<not> includes_str msg ''misconfiguration''
                           then console_log
                                  (Console_warn [''[capacitor-ad-slots] Consent flow:'', msg])
                           else returning ()))
                     (\<lambda>consent.
                        and_then (called w (AdMob_addListener BannerAd_FailedToLoad)) (\<lambda>l1.
                        and_then (called w (AdMob_addListener InterstitialAd_FailedToLoad))
                          (\<lambda>l2. update (\<lambda>st. st\<lparr>isInitialized := True\<rparr>))))))
             (\<lambda>error.
                console_log (Console_error [''[capacitor-ad-slots] Initialize failed:'', error]))))"

text \<open>
  \<open>currentBannerSlot.value\<close> used as a condition: \<open>null\<close> and the empty string are
  falsy.
\<close>

definition truthy :: "string option \<Rightarrow> bool" where
  "truthy v = (case v of None \<Rightarrow> False | Some s \<Rightarrow> s \<noteq> [])"

text \<open>
  \<open>hide(currentBannerSlot.value)\<close> is called and its promise dropped: the model records
  the started call in \<open>detached\<close>; it runs as \<open>run_task\<close> below.
\<close>

definition setAdsRemoved :: "bool \<Rightarrow> state \<Rightarrow> state" where
  "setAdsRemoved removed st =
     (let st1 = st\<lparr>adsRemoved := removed\<rparr>
      in case currentBannerSlot st1 of
           Some s \<Rightarrow>
             if removed \<and> truthy (Some s)
             then st1\<lparr>detached := detached st1 @ [Detached_hide s]\<rparr>
             else st1
         | None \<Rightarrow> st1)"

definition shouldShowAds :: "state \<Rightarrow> bool \<times> state" where
  "shouldShowAds st = (isInitialized st \<and> \<not> adsRemoved st, st)"

definition resolveTesting :: "AdSlotConfig \<Rightarrow> bool option \<Rightarrow> bool" where
  "resolveTesting slot globalTesting =
     (case globalTesting of
        Some g \<Rightarrow> g
      | None \<Rightarrow> (case isTesting slot of Present t \<Rightarrow> t | _ \<Rightarrow> False))"

text \<open>
  The guard \<open>!isInitialized.value || adsRemoved.value || !(await isNative())\<close>: true when
  the function returns at once. The host is asked only when the two flags let it.
\<close>

definition gate_closed :: "world \<Rightarrow> bool action" where
  "gate_closed w =
     reading (\<lambda>st. \<not> isInitialized st \<or> adsRemoved st) (\<lambda>off.
       if off then returning True
       else and_then (isNative w) (\<lambda>n. returning (\<not> n)))"

record reward =
  amount :: js_number
  type :: string

text \<open>
  \<open>if (!slot || slot.type !== 'rewarded') return null\<close>: only a slot configuration of type
  rewarded goes on; \<open>undefined\<close>, a falsy value and a value without that type return.
\<close>

definition triggerRewarded :: "world \<Rightarrow> string \<Rightarrow> bool option \<Rightarrow> reward option action" where
  "triggerRewarded w slotId globalTesting =
     and_then (gate_closed w) (\<lambda>closed.
       if closed then returning None
       else
         reading (\<lambda>st. getSlot (registry st) slotId) (\<lambda>slot.
           case slot of
             JConfig (RewardedSlotConfig a t) \<Rightarrow>
               and_then (loadAdMob w) (\<lambda>loaded.
                 try_catch
                   (and_then
                      (awaited w
                         (AdMob_prepareRewardVideoAd a
                            (resolveTesting (RewardedSlotConfig a t) globalTesting)))
                      (\<lambda>prepared.
                         and_then (awaited w AdMob_showRewardVideoAd) (\<lambda>r.
                           returning (Some \<lparr>amount = reward_amount r, type = reward_type r\<rparr>))))
                   (\<lambda>e.
                      and_then
                        (console_log
                           (Console_error
                              [''[capacitor-ad-slots] Failed to show rewarded '' @ slotId @ '':'',
                               e]))
                        (\<lambda>logged. returning None)))
           | _ \<Rightarrow> returning None))"

definition prepareInterstitial :: "world \<Rightarrow> string \<Rightarrow> bool option \<Rightarrow> unit action" where
  "prepareInterstitial w slotId globalTesting =
     and_then (gate_closed w) (\<lambda>closed.
       if closed then returning ()
       else
         reading (\<lambda>st. getSlot (registry st) slotId) (\<lambda>slot.
           case slot of
             JConfig (InterstitialSlotConfig a t) \<Rightarrow>
               and_then (loadAdMob w) (\<lambda>loaded.
                 try_catch
                   (and_then
                      (awaited w
                         (AdMob_prepareInterstitial a
                            (resolveTesting (InterstitialSlotConfig a t) globalTesting)))
                      (\<lambda>prepared. returning ()))
                   (\<lambda>e. returning ()))
           | _ \<Rightarrow> returning ()))"

text \<open>
  \<open>setTimeout(() => prepareInterstitial(slotId, globalTesting), 1000)\<close> is recorded in
  \<open>detached\<close>.
\<close>

definition triggerInterstitial :: "world \<Rightarrow> string \<Rightarrow> bool option \<Rightarrow> unit action" where
  "triggerInterstitial w slotId globalTesting =
     reading (\<lambda>st. getSlot (registry st) slotId) (\<lambda>slot.
       case slot of
         JConfig (InterstitialSlotConfig a t) \<Rightarrow>
           and_then (loadAdMob w) (\<lambda>loaded.
             try_catch
               (and_then
                  (awaited w
                     (AdMob_prepareInterstitial a
                        (resolveTesting (InterstitialSlotConfig a t) globalTesting)))
                  (\<lambda>prepared.
                     and_then (awaited w AdMob_showInterstitial) (\<lambda>shown.
                       update (\<lambda>st. st\<lparr>detached :=
                         detached st @ [Timeout_prepareInterstitial slotId globalTesting]\<rparr>))))
               (\<lambda>e.
                  console_log
                    (Console_error
                       [''[capacitor-ad-slots] Failed to show interstitial '' @ slotId @ '':'',
                        e])))
       | _ \<Rightarrow> returning ())"

text \<open>
  The banner branch of \<open>show\<close>, for the slot \<open>cfg\<close> read from the registry.
\<close>

definition show_banner :: "world \<Rightarrow> string \<Rightarrow> AdSlotConfig \<Rightarrow> bool option \<Rightarrow> unit action" where
  "show_banner w slotId cfg globalTesting =
     and_then (loadAdMob w) (\<lambda>loaded.
       try_catch
         (and_then
            (reading currentBannerSlot (\<lambda>cur.
               if truthy cur \<and> cur \<noteq> Some slotId
               then and_then (awaited w AdMob_hideBanner) (\<lambda>hidden. returning ())
               else returning ()))
            (\<lambda>u.
               and_then
                 (awaited w
                    (AdMob_showBanner (adId cfg)
                       (toBannerAdSize (case size cfg of Present s \<Rightarrow> s | _ \<Rightarrow> adaptive))
                       (toBannerAdPosition
                          (case position cfg of Present p \<Rightarrow> p | _ \<Rightarrow> bottom_position))
                       (case margin cfg of Present m \<Rightarrow> m | _ \<Rightarrow> 0)
                       (resolveTesting cfg globalTesting)))
                 (\<lambda>shown. update (\<lambda>st. st\<lparr>currentBannerSlot := Some slotId\<rparr>))))
         (\<lambda>e.
            console_log
              (Console_error
                 [''[capacitor-ad-slots] Failed to show banner '' @ slotId @ '':'', e])))"

text \<open>
  \<open>show\<close> and \<open>remove\<close> are \<open>show_slot\<close> and \<open>remove_slot\<close> here.
  \<open>getSlot(slotId)!\<close> is not checked at run time: reading \<open>.type\<close> of \<open>undefined\<close> throws a
  TypeError; of any other value that is not a slot configuration it is \<open>undefined\<close>, and
  no branch is taken.
\<close>

definition show_slot :: "world \<Rightarrow> string \<Rightarrow> bool option \<Rightarrow> unit action" where
  "show_slot w slotId globalTesting =
     and_then (gate_closed w) (\<lambda>closed.
       if closed then returning ()
       else
         reading (\<lambda>st. hasSlot (registry st) slotId) (\<lambda>known.
           if \<not> known
           then console_log (Console_warn [''[capacitor-ad-slots] Unknown slot: '' @ slotId])
           else
             reading (\<lambda>st. getSlot (registry st) slotId) (\<lambda>slot.
               case slot of
                 JUndefined \<Rightarrow> (\<lambda>st. (Raised ''TypeError'', st))
               | JConfig (BannerSlotConfig a p s m t) \<Rightarrow>
                   show_banner w slotId (BannerSlotConfig a p s m t) globalTesting
               | JConfig (InterstitialSlotConfig a t) \<Rightarrow>
                   triggerInterstitial w slotId globalTesting
               | JConfig (RewardedSlotConfig a t) \<Rightarrow>
                   and_then (triggerRewarded w slotId globalTesting) (\<lambda>r. returning ())
               | _ \<Rightarrow> returning ())))"

definition hide :: "world \<Rightarrow> string \<Rightarrow> unit action" where
  "hide w slotId =
     and_then (isNative w) (\<lambda>n.
       if \<not> n then returning ()
       else
         reading currentBannerSlot (\<lambda>cur.
           if cur \<noteq> Some slotId then returning ()
           else
             and_then (loadAdMob w) (\<lambda>loaded.
               try_catch
                 (and_then (awaited w AdMob_hideBanner)
                    (\<lambda>hidden. update (\<lambda>st. st\<lparr>currentBannerSlot := None\<rparr>)))
                 (\<lambda>e.
                    console_log
                      (Console_error
                         [''[capacitor-ad-slots] Failed to hide banner '' @ slotId @ '':'',
                          e])))))"

definition remove_slot :: "world \<Rightarrow> string \<Rightarrow> unit action" where
  "remove_slot w slotId =
     and_then (isNative w) (\<lambda>n.
       if \<not> n then returning ()
       else
         reading currentBannerSlot (\<lambda>cur.
           if cur \<noteq> Some slotId then returning ()
           else
             and_then (loadAdMob w) (\<lambda>loaded.
               try_catch
                 (and_then (awaited w AdMob_removeBanner)
                    (\<lambda>removed. update (\<lambda>st. st\<lparr>currentBannerSlot := None\<rparr>)))
                 (\<lambda>e.
                    console_log
                      (Console_error
                         [''[capacitor-ad-slots] Failed to remove banner '' @ slotId @ '':'',
                          e])))))"

definition trigger :: "world \<Rightarrow> string \<Rightarrow> bool option \<Rightarrow> unit action" where
  "trigger w slotId globalTesting =
     and_then (gate_closed w) (\<lambda>closed.
       if closed then returning ()
       else
         reading (\<lambda>st. hasSlot (registry st) slotId) (\<lambda>known.
           if \<not> known
           then console_log (Console_warn [''[capacitor-ad-slots] Unknown slot: '' @ slotId])
           else
             reading (\<lambda>st. getSlot (registry st) slotId) (\<lambda>slot.
               case slot of
                 JUndefined \<Rightarrow> (\<lambda>st. (Raised ''TypeError'', st))
               | JConfig (InterstitialSlotConfig a t) \<Rightarrow>
                   triggerInterstitial w slotId globalTesting
               | JConfig (RewardedSlotConfig a t) \<Rightarrow>
                   and_then (triggerRewarded w slotId globalTesting) (\<lambda>r. returning ())
               | _ \<Rightarrow>
                   console_log
                     (Console_warn
                        [''[capacitor-ad-slots] trigger() is for interstitial/rewarded. Use show() for banners: ''
                         @ slotId]))))"

definition prepareInterstitialSlot :: "world \<Rightarrow> string \<Rightarrow> bool option \<Rightarrow> unit action" where
  "prepareInterstitialSlot w slotId globalTesting =
     and_then (prepareInterstitial w slotId globalTesting) (\<lambda>u. returning ())"

text \<open>A call started without await, run later; what it returns or rejects with is dropped.\<close>

fun run_task :: "world \<Rightarrow> task \<Rightarrow> unit action" where
  "run_task w (Detached_hide slotId) = hide w slotId"
| "run_task w (Timeout_prepareInterstitial slotId globalTesting) =
     prepareInterstitial w slotId globalTesting"

text \<open>The public operations of the service, as one type, and what their caller gets.\<close>

datatype public_op =
    Op_initialize AdSlotsInitOptions
  | Op_show string "bool option"
  | Op_hide string
  | Op_remove string
  | Op_trigger string "bool option"
  | Op_triggerRewarded string "bool option"
  | Op_prepareInterstitialSlot string "bool option"
  | Op_setAdsRemoved bool

fun run_op :: "world \<Rightarrow> public_op \<Rightarrow> unit action" where
  "run_op w (Op_initialize options) = initialize w options"
| "run_op w (Op_show slotId globalTesting) = show_slot w slotId globalTesting"
| "run_op w (Op_hide slotId) = hide w slotId"
| "run_op w (Op_remove slotId) = remove_slot w slotId"
| "run_op w (Op_trigger slotId globalTesting) = trigger w slotId globalTesting"
| "run_op w (Op_triggerRewarded slotId globalTesting) =
     and_then (triggerRewarded w slotId globalTesting) (\<lambda>r. returning ())"
| "run_op w (Op_prepareInterstitialSlot slotId globalTesting) =
     prepareInterstitialSlot w slotId globalTesting"
| "run_op w (Op_setAdsRemoved removed) = update (setAdsRemoved removed)"


section \<open>Properties of actions, and the data of the examples\<close>

text \<open>
  An action keeps \<open>I\<close> when it leads from a state in \<open>I\<close> to a state in \<open>I\<close> however it
  ends; it grows the trace when it only appends requests; it is safe when it rejects only
  after a rejected or throwing request for host detection or for the import of the plugin.
\<close>

definition keeps :: "(state \<Rightarrow> bool) \<Rightarrow> 'a action \<Rightarrow> bool" where
  "keeps I m = (\<forall>st r st'. I st \<longrightarrow> m st = (r, st') \<longrightarrow> I st')"

definition loading_calls :: "ext_call list" where
  "loading_calls = [ImportCapacitorCore, Capacitor_isNativePlatform, ImportAdMob]"

definition loading_failure :: "world \<Rightarrow> string \<Rightarrow> state \<Rightarrow> state \<Rightarrow> bool" where
  "loading_failure w e st st' =
     (\<exists>pre c. trace st' = trace st @ pre @ [c] \<and> c \<in> set loading_calls \<and>
        (w (trace st') = RejectsWith e \<or> w (trace st') = ThrowsWith e))"

definition grows :: "'a action \<Rightarrow> bool" where
  "grows m = (\<forall>st r st'. m st = (r, st') \<longrightarrow> (\<exists>ext. trace st' = trace st @ ext))"

definition safe :: "world \<Rightarrow> 'a action \<Rightarrow> bool" where
  "safe w m = (\<forall>st e st'. m st = (Raised e, st') \<longrightarrow> loading_failure w e st st')"

definition stable :: "(state \<Rightarrow> bool) \<Rightarrow> bool" where
  "stable I = (\<forall>st. I st \<longrightarrow>
      (\<forall>c. I (st\<lparr>trace := trace st @ [c]\<rparr>)) \<and> (\<forall>l. I (st\<lparr>console := console st @ [l]\<rparr>)) \<and>
      I (st\<lparr>AdMob := True\<rparr>) \<and> (\<forall>d. I (st\<lparr>detached := detached st @ [d]\<rparr>)))"

definition banner_stable :: "(state \<Rightarrow> bool) \<Rightarrow> bool" where
  "banner_stable I = (\<forall>st b. I st \<longrightarrow> I (st\<lparr>currentBannerSlot := b\<rparr>))"

text \<open>
  The slot id whose registry entry \<open>show\<close> and \<open>trigger\<close> read behind \<open>hasSlot\<close>, and the
  condition that this read does not find a property whose value is \<open>undefined\<close>.
\<close>

fun guarded_slot :: "public_op \<Rightarrow> string option" where
  "guarded_slot (Op_show slotId globalTesting) = Some slotId"
| "guarded_slot (Op_trigger slotId globalTesting) = Some slotId"
| "guarded_slot (Op_initialize options) = None"
| "guarded_slot (Op_hide slotId) = None"
| "guarded_slot (Op_remove slotId) = None"
| "guarded_slot (Op_triggerRewarded slotId globalTesting) = None"
| "guarded_slot (Op_prepareInterstitialSlot slotId globalTesting) = None"
| "guarded_slot (Op_setAdsRemoved removed) = None"

definition reads_defined :: "public_op \<Rightarrow> state \<Rightarrow> bool" where
  "reads_defined op st =
     (case guarded_slot op of
        None \<Rightarrow> True
      | Some k \<Rightarrow> \<not> (hasSlot (registry st) k \<and> getSlot (registry st) k = JUndefined))"

text \<open>
  The three flags that a caller can observe, and the failures of requests that an
  operation can observe: a rejection or a throw of a request it awaits, and a throw of a
  call whose promise it drops. The failures of the consent step are absorbed by design
  and initialisation goes on after them, so they are not counted; a rejected promise of
  \<open>addListener\<close> is never looked at.
\<close>

definition flags :: "state \<Rightarrow> bool \<times> bool \<times> string option" where
  "flags st = (isInitialized st, adsRemoved st, currentBannerSlot st)"

fun consent_call :: "ext_call \<Rightarrow> bool" where
  "consent_call (AdMob_requestConsentInfo geo devices) = True"
| "consent_call AdMob_showConsentForm = True"
| "consent_call c = False"

fun listener_call :: "ext_call \<Rightarrow> bool" where
  "listener_call (AdMob_addListener ev) = True"
| "listener_call c = False"

definition failed :: "world \<Rightarrow> ext_call list \<Rightarrow> bool" where
  "failed w tr =
     (case w tr of
        RejectsWith e \<Rightarrow> \<not> consent_call (last tr) \<and> \<not> listener_call (last tr)
      | ThrowsWith e \<Rightarrow> \<not> consent_call (last tr)
      | Resolves p \<Rightarrow> False
      | NeverSettles \<Rightarrow> False)"

text \<open>None of the requests \<open>cs\<close>, sent one after the other after \<open>tr\<close>, failed.\<close>

fun answered :: "world \<Rightarrow> ext_call list \<Rightarrow> ext_call list \<Rightarrow> bool" where
  "answered w tr [] = True"
| "answered w tr (c # cs) = (\<not> failed w (tr @ [c]) \<and> answered w (tr @ [c]) cs)"

definition no_failure :: "world \<Rightarrow> state \<Rightarrow> state \<Rightarrow> bool" where
  "no_failure w st st' = answered w (trace st) (drop (length (trace st)) (trace st'))"

text \<open>
  An action is calm when it changes no flag and only appends to the trace; tidy when it
  is calm and returns only if none of its requests failed; harmless when it is calm and
  none of its requests counts as a failure; honest when it only appends to the trace and
  changes a flag only if it returns and none of its requests failed; granting when it
  returns a value other than \<open>null\<close> only if none of its requests failed.
\<close>

fun returned :: "'a completion \<Rightarrow> bool" where
  "returned (Returned x) = True"
| "returned (Raised e) = False"
| "returned Suspended = False"

definition calm :: "'a action \<Rightarrow> bool" where
  "calm m = (\<forall>st r st'. m st = (r, st') \<longrightarrow>
      flags st' = flags st \<and> (\<exists>ext. trace st' = trace st @ ext))"

definition tidy :: "world \<Rightarrow> 'a action \<Rightarrow> bool" where
  "tidy w m = (\<forall>st r st'. m st = (r, st') \<longrightarrow>
      flags st' = flags st \<and>
      (\<exists>ext. trace st' = trace st @ ext \<and>
         (returned r \<longrightarrow> answered w (trace st) ext)))"

definition harmless :: "world \<Rightarrow> 'a action \<Rightarrow> bool" where
  "harmless w m = (\<forall>st r st'. m st = (r, st') \<longrightarrow>
      flags st' = flags st \<and> (\<exists>ext. trace st' = trace st @ ext \<and> answered w (trace st) ext))"

definition honest :: "world \<Rightarrow> 'a action \<Rightarrow> bool" where
  "honest w m = (\<forall>st r st'. m st = (r, st') \<longrightarrow>
      (\<exists>ext. trace st' = trace st @ ext \<and>
         (flags st' = flags st \<or> (returned r \<and> answered w (trace st) ext))))"

definition granting :: "world \<Rightarrow> 'a option action \<Rightarrow> bool" where
  "granting w m = (\<forall>st v st'. m st = (Returned (Some v), st') \<longrightarrow>
      (\<exists>ext. trace st' = trace st @ ext \<and> answered w (trace st) ext))"

text \<open>
  The test flag that a request carries, and the invariant of a run for the slot \<open>slotId\<close>
  with configuration \<open>cfg\<close>: every request sent since the trace \<open>t0\<close> that carries a test
  flag carries \<open>v\<close>.
\<close>

fun request_flag :: "ext_call \<Rightarrow> bool option" where
  "request_flag (AdMob_showBanner a sz pos mg t) = Some t"
| "request_flag (AdMob_prepareInterstitial a t) = Some t"
| "request_flag (AdMob_prepareRewardVideoAd a t) = Some t"
| "request_flag c = None"

definition flagged :: "string \<Rightarrow> AdSlotConfig \<Rightarrow> bool \<Rightarrow> ext_call list \<Rightarrow> state \<Rightarrow> bool" where
  "flagged slotId cfg v t0 s =
     (getSlot (registry s) slotId = JConfig cfg \<and>
      (\<exists>ext. trace s = t0 @ ext \<and>
         (\<forall>c \<in> set ext. request_flag c = None \<or> request_flag c = Some v)))"

text \<open>
  Every call that was started without await since the list \<open>d0\<close> is the call \<open>t\<close>.
\<close>

definition scheduled :: "task \<Rightarrow> task list \<Rightarrow> state \<Rightarrow> bool" where
  "scheduled t d0 s = (\<exists>ds. detached s = d0 @ ds \<and> (\<forall>d \<in> set ds. d = t))"

text \<open>
  The plugin binding is set before \<open>isInitialized\<close> becomes true, and nothing unsets it.
\<close>

definition module_invariant :: "state \<Rightarrow> bool" where
  "module_invariant st = (isInitialized st \<longrightarrow> AdMob st)"

text \<open>
  The states the module reaches from its initial state: by definitions of slots, by the
  public operations, and by the calls it started without awaiting them, against any
  outside world.
\<close>

inductive reachable :: "state \<Rightarrow> bool" where
  reachable_initial: "reachable initial_state"
| reachable_define: "reachable st \<Longrightarrow> reachable (st\<lparr>registry := run_call c (registry st)\<rparr>)"
| reachable_op: "reachable st \<Longrightarrow> reachable (snd (run_op w op st))"
| reachable_task: "reachable st \<Longrightarrow> reachable (snd (run_task w t st))"

text \<open>
  Concrete inputs: \<open>initialize()\<close> without options; a native host on which every request
  resolves; a browser; a native host on which one request is rejected; a registry with
  five slots, one of them with the empty id; the state after a successful \<open>initialize()\<close>
  (with the trace and the console cleared), and that state with the banner \<open>b1\<close> shown.
\<close>

definition default_options :: AdSlotsInitOptions where
  "default_options =
     \<lparr>testingDevices = None, initializeForTesting = None, consentDebugGeography = None,
      consentTestDevices = None, global_isTesting = None\<rparr>"

definition native_payload :: payload where
  "native_payload =
     \<lparr>native_platform = True, consent_form_available = False, consent_status = NOT_REQUIRED,
      reward_amount = 10, reward_type = ''coins''\<rparr>"

definition web_payload :: payload where
  "web_payload = native_payload\<lparr>native_platform := False\<rparr>"

definition cooperative_world :: world where
  "cooperative_world tr = Resolves native_payload"

definition web_world :: world where
  "web_world tr = Resolves web_payload"

definition failing_world :: "ext_call \<Rightarrow> world" where
  "failing_world c tr = (if last tr = c then RejectsWith ''failed'' else Resolves native_payload)"

definition demo_registry :: js_object where
  "demo_registry =
     defineSlots
       [(''b1'', BannerSlotConfig ''ad-1'' Absent Absent Absent (Present True)),
        (''b2'', BannerSlotConfig ''ad-2'' (Present top_position) (Present smart) (Present 4) Absent),
        ([], BannerSlotConfig ''ad-0'' Absent Absent Absent Absent),
        (''r1'', RewardedSlotConfig ''ad-r'' Absent),
        (''i1'', InterstitialSlotConfig ''ad-i'' Absent)]
       empty_registry"

definition ready_state :: state where
  "ready_state = initial_state\<lparr>isInitialized := True, registry := demo_registry, AdMob := True\<rparr>"

definition shown_state :: state where
  "shown_state = ready_state\<lparr>currentBannerSlot := Some ''b1''\<rparr>"

text \<open>The state after one host detection.\<close>

definition host_asked :: "state \<Rightarrow> state" where
  "host_asked st = st\<lparr>trace := trace st @ [ImportCapacitorCore, Capacitor_isNativePlatform]\<rparr>"


section \<open>The registry: lookups after a sequence of definitions\<close>

lemma own_js_set:
  "own (js_set r k c) k' =
     (if k = ''__proto__'' then own r k' else if k' = k then Some c else own r k')"
  by (simp add: js_set_def)

lemma proto_js_set:
  "proto (js_set r k c) = (if k = ''__proto__'' then Some c else proto r)"
  by (simp add: js_set_def)

lemma fold_set_own:
  "own (fold (\<lambda>(k, c) r'. js_set r' k c) ds r) k =
     (if k = ''__proto__'' then own r k
      else (case map_of (rev ds) k of Some c \<Rightarrow> Some c | None \<Rightarrow> own r k))"
proof (induction ds arbitrary: r)
  case Nil
  then show ?case by simp
next
  case (Cons d ds)
  obtain k' c' where d: "d = (k', c')" by (cases d)
  show ?case
    by (simp add: Cons.IH d own_js_set proto_js_set map_add_def split: option.splits)
qed

lemma fold_set_proto:
  "proto (fold (\<lambda>(k, c) r'. js_set r' k c) ds r) =
     (case map_of (rev ds) ''__proto__'' of Some c \<Rightarrow> Some c | None \<Rightarrow> proto r)"
proof (induction ds arbitrary: r)
  case Nil
  then show ?case by simp
next
  case (Cons d ds)
  obtain k' c' where d: "d = (k', c')" by (cases d)
  show ?case
    by (simp add: Cons.IH d own_js_set proto_js_set map_add_def split: option.splits)
qed

lemma run_calls_fold:
  "run_calls cs r = fold (\<lambda>(k, c) r'. js_set r' k c) (concat (map definitions_of cs)) r"
proof (induction cs arbitrary: r)
  case Nil
  then show ?case by (simp add: run_calls_def)
next
  case (Cons c cs)
  then show ?case
    by (cases c) (simp_all add: run_calls_def defineSlot_def defineSlots_def)
qed



text \<open>A defined id is known, whatever else was defined.\<close>

lemma hasSlot_defined:
  "last_definition cs A = Some c \<Longrightarrow> hasSlot (run_calls cs empty_registry) A"
  by (auto simp add: hasSlot_def js_in_def run_calls_fold fold_set_own last_definition_def
      object_prototype_keys_def split: option.splits)

text \<open>
  An id that was never defined is unknown when it is none of the keys that every object
  inherits and the prototype was never replaced.
\<close>

lemma hasSlot_undefined:
  assumes "last_definition cs A = None" and "last_definition cs ''__proto__'' = None"
    and "A \<notin> set object_prototype_keys"
  shows "\<not> hasSlot (run_calls cs empty_registry) A"
proof -
  from assms(3) have "A \<noteq> ''__proto__''" by (auto simp: object_prototype_keys_def)
  with assms show ?thesis
    by (simp add: hasSlot_def js_in_def run_calls_fold fold_set_own fold_set_proto
        last_definition_def empty_registry_def inherited_property_def)
qed

text \<open>
  Claim C9. \<open>hasSlot(A)\<close> is meant to be true exactly for the ids that were defined. On the
  registry in which nothing was ever defined, \<open>hasSlot("toString")\<close> is true: the test
  \<open>id in registry\<close> also finds what the object inherits from \<open>Object.prototype\<close>.
\<close>

theorem hasSlot_inherited_key:
  "last_definition [] ''toString'' = None \<and> hasSlot (run_calls [] empty_registry) ''toString''"
  by (simp add: last_definition_def run_calls_def hasSlot_def js_in_def object_prototype_keys_def)

lemma optional_property_not_config:
  "(\<And>v. f v \<noteq> JConfig c') \<Longrightarrow> optional_property f x \<noteq> Some (JConfig c')"
  by (cases x) (simp_all add: optional_property_def)

lemma config_property_not_config: "config_property c k \<noteq> Some (JConfig c')"
  by (cases c) (simp_all add: config_property_def optional_property_not_config)

lemma getSlot_config_hasSlot: "getSlot r sid = JConfig c \<Longrightarrow> hasSlot r sid"
  using config_property_not_config
  by (auto simp: hasSlot_def getSlot_def js_in_def js_get_def inherited_property_def
      object_prototype_keys_def split: option.splits if_splits)


section \<open>Test mode and the ads switch\<close>

text \<open>
  The flag that \<open>resolveTesting\<close> computes: the call-site argument when there is one, else
  the slot's \<open>isTesting\<close>, and false when that is absent or undefined.
\<close>

lemma resolveTesting_cases:
  "resolveTesting slot (Some g) = g \<and>
   resolveTesting slot None = (case isTesting slot of Present t \<Rightarrow> t | _ \<Rightarrow> False)"
  by (simp add: resolveTesting_def)

text \<open>
  Claim C7. \<open>shouldShowAds()\<close> is true exactly when \<open>isInitialized\<close> is true and
  \<open>adsRemoved\<close> is false, and it leaves every variable of the module as it was.
\<close>

theorem shouldShowAds_spec:
  "fst (shouldShowAds st) = (isInitialized st \<and> \<not> adsRemoved st) \<and> snd (shouldShowAds st) = st"
  by (simp add: shouldShowAds_def)


section \<open>What every action keeps\<close>

lemma keeps_returning: "keeps I (returning x)"
  by (simp add: keeps_def returning_def)

lemma keeps_and_then:
  assumes "keeps I m" and "\<And>x. keeps I (f x)"
  shows "keeps I (and_then m f)"
  unfolding keeps_def
proof (intro allI impI)
  fix st r st'
  assume I: "I st" and run: "and_then m f st = (r, st')"
  obtain r1 st1 where m: "m st = (r1, st1)" by (cases "m st")
  with assms(1) I have I1: "I st1" unfolding keeps_def by blast
  show "I st'"
  proof (cases r1)
    case (Returned x)
    with run m have "f x st1 = (r, st')" by (simp add: and_then_def)
    with assms(2) I1 show ?thesis unfolding keeps_def by blast
  next
    case (Raised e)
    with run m I1 show ?thesis by (simp add: and_then_def)
  next
    case Suspended
    with run m I1 show ?thesis by (simp add: and_then_def)
  qed
qed

lemma keeps_try_catch:
  assumes "keeps I m" and "\<And>e. keeps I (h e)"
  shows "keeps I (try_catch m h)"
  unfolding keeps_def
proof (intro allI impI)
  fix st r st'
  assume I: "I st" and run: "try_catch m h st = (r, st')"
  obtain r1 st1 where m: "m st = (r1, st1)" by (cases "m st")
  with assms(1) I have I1: "I st1" unfolding keeps_def by blast
  show "I st'"
  proof (cases r1)
    case (Returned x)
    with run m I1 show ?thesis by (simp add: try_catch_def)
  next
    case (Raised e)
    with run m have "h e st1 = (r, st')" by (simp add: try_catch_def)
    with assms(2) I1 show ?thesis unfolding keeps_def by blast
  next
    case Suspended
    with run m I1 show ?thesis by (simp add: try_catch_def)
  qed
qed

lemma keeps_reading: "(\<And>x. keeps I (f x)) \<Longrightarrow> keeps I (reading g f)"
  unfolding keeps_def reading_def by blast

lemma keeps_update: "(\<And>st. I st \<Longrightarrow> I (f st)) \<Longrightarrow> keeps I (update f)"
  unfolding keeps_def update_def by simp

lemma keeps_awaited:
  assumes "\<And>st. I st \<Longrightarrow> I (st\<lparr>trace := trace st @ [c]\<rparr>)"
  shows "keeps I (awaited w c)"
  unfolding keeps_def
proof (intro allI impI)
  fix st r st'
  assume I: "I st" and run: "awaited w c st = (r, st')"
  from run have "st' = st\<lparr>trace := trace st @ [c]\<rparr>"
    by (cases "w (trace st @ [c])") (simp_all add: awaited_def)
  with assms I show "I st'" by simp
qed

lemma keeps_called:
  assumes "\<And>st. I st \<Longrightarrow> I (st\<lparr>trace := trace st @ [c]\<rparr>)"
  shows "keeps I (called w c)"
  unfolding keeps_def
proof (intro allI impI)
  fix st r st'
  assume I: "I st" and run: "called w c st = (r, st')"
  from run have "st' = st\<lparr>trace := trace st @ [c]\<rparr>"
    by (cases "w (trace st @ [c])") (simp_all add: called_def)
  with assms I show "I st'" by simp
qed

lemma keeps_raise: "keeps I (\<lambda>st. (Raised e, st))"
  by (simp add: keeps_def)

lemma keeps_if: "keeps I a \<Longrightarrow> keeps I b \<Longrightarrow> keeps I (if c then a else b)"
  by simp

lemma keeps_console_log: "stable I \<Longrightarrow> keeps I (console_log l)"
  unfolding console_log_def by (rule keeps_update) (simp add: stable_def)

lemma keeps_request: "stable I \<Longrightarrow> keeps I (awaited w c)" "stable I \<Longrightarrow> keeps I (called w c)"
  by (rule keeps_awaited, simp add: stable_def, rule keeps_called, simp add: stable_def)

lemmas keeps_rules =
  keeps_returning keeps_and_then keeps_try_catch keeps_reading keeps_raise keeps_if
  keeps_console_log keeps_request

lemma keeps_isNative: "stable I \<Longrightarrow> keeps I (isNative w)"
  unfolding isNative_def by (intro keeps_rules)

lemma keeps_loadAdMob: "stable I \<Longrightarrow> keeps I (loadAdMob w)"
  unfolding loadAdMob_def by (intro keeps_rules keeps_update) (simp_all add: stable_def)

lemma keeps_gate_closed: "stable I \<Longrightarrow> keeps I (gate_closed w)"
  unfolding gate_closed_def by (intro keeps_rules keeps_isNative)

lemma keeps_hide: "stable I \<Longrightarrow> banner_stable I \<Longrightarrow> keeps I (hide w slotId)"
  unfolding hide_def
  by (intro keeps_rules keeps_isNative keeps_loadAdMob keeps_update)
    (simp_all add: banner_stable_def)

lemma keeps_remove_slot: "stable I \<Longrightarrow> banner_stable I \<Longrightarrow> keeps I (remove_slot w slotId)"
  unfolding remove_slot_def
  by (intro keeps_rules keeps_isNative keeps_loadAdMob keeps_update)
    (simp_all add: banner_stable_def)

lemma keeps_triggerRewarded: "stable I \<Longrightarrow> keeps I (triggerRewarded w slotId g)"
  unfolding triggerRewarded_def
  apply (intro keeps_rules keeps_gate_closed; assumption?)
  subgoal for closed slot
    apply (cases slot; simp add: keeps_rules)
    subgoal for cfg
      by (cases cfg; simp add: keeps_rules; intro keeps_rules keeps_loadAdMob; assumption)
    done
  done


lemma keeps_prepareInterstitial: "stable I \<Longrightarrow> keeps I (prepareInterstitial w slotId g)"
  unfolding prepareInterstitial_def
  apply (intro keeps_rules keeps_gate_closed; assumption?)
  subgoal for closed slot
    apply (cases slot; simp add: keeps_rules)
    subgoal for cfg
      by (cases cfg; simp add: keeps_rules; intro keeps_rules keeps_loadAdMob; assumption)
    done
  done

lemma keeps_triggerInterstitial: "stable I \<Longrightarrow> keeps I (triggerInterstitial w slotId g)"
  unfolding triggerInterstitial_def
  apply (intro keeps_rules; assumption?)
  subgoal for slot
    apply (cases slot; simp add: keeps_rules)
    subgoal for cfg
      by (cases cfg; simp add: keeps_rules; intro keeps_rules keeps_loadAdMob keeps_update;
          simp add: stable_def)
    done
  done

lemma keeps_show_banner:
  "stable I \<Longrightarrow> banner_stable I \<Longrightarrow> keeps I (show_banner w slotId cfg g)"
  unfolding show_banner_def
  by (intro keeps_rules keeps_loadAdMob keeps_update; simp add: banner_stable_def)

lemma keeps_show_slot: "stable I \<Longrightarrow> banner_stable I \<Longrightarrow> keeps I (show_slot w slotId g)"
  unfolding show_slot_def
  apply (intro keeps_rules keeps_gate_closed; assumption?)
  subgoal for closed known slot
    apply (cases slot; simp add: keeps_rules)
    subgoal for cfg
      by (cases cfg; simp add: keeps_show_banner keeps_triggerInterstitial;
          intro keeps_rules keeps_triggerRewarded; assumption)
    done
  done

lemma keeps_trigger: "stable I \<Longrightarrow> keeps I (trigger w slotId g)"
  unfolding trigger_def
  apply (intro keeps_rules keeps_gate_closed; assumption?)
  subgoal for closed known slot
    apply (cases slot; simp add: keeps_rules)
    subgoal for cfg
      by (cases cfg; simp add: keeps_rules keeps_triggerInterstitial;
          intro keeps_rules keeps_triggerRewarded; assumption)
    done
  done

lemma keeps_prepareInterstitialSlot:
  "stable I \<Longrightarrow> keeps I (prepareInterstitialSlot w slotId g)"
  unfolding prepareInterstitialSlot_def
  by (intro keeps_rules keeps_prepareInterstitial)

lemma keeps_consent_flow: "stable I \<Longrightarrow> keeps I (consent_flow w options)"
  unfolding consent_flow_def by (intro keeps_rules)

lemma keeps_initialize:
  assumes "stable I" and "\<And>st. I st \<Longrightarrow> I (st\<lparr>isInitialized := True\<rparr>)"
  shows "keeps I (initialize w options)"
  unfolding initialize_def
  by (intro keeps_rules keeps_isNative keeps_loadAdMob keeps_consent_flow keeps_update assms)

text \<open>Every action only appends to the trace.\<close>

lemma stable_prefix: "stable (\<lambda>s. \<exists>ext. trace s = t0 @ ext)"
  unfolding stable_def by auto

lemma banner_stable_prefix: "banner_stable (\<lambda>s. \<exists>ext. trace s = t0 @ ext)"
  unfolding banner_stable_def by simp

lemma grows_from_keeps: "(\<And>t0. keeps (\<lambda>s. \<exists>ext. trace s = t0 @ ext) m) \<Longrightarrow> grows m"
proof -
  assume k: "\<And>t0. keeps (\<lambda>s. \<exists>ext. trace s = t0 @ ext) m"
  show "grows m"
    unfolding grows_def
  proof (intro allI impI)
    fix st r st'
    assume run: "m st = (r, st')"
    have "\<exists>ext. trace st = trace st @ ext" by simp
    with k [of "trace st"] run show "\<exists>ext. trace st' = trace st @ ext"
      unfolding keeps_def by blast
  qed
qed

lemma stable_AdMob: "stable AdMob"
  by (simp add: stable_def)


lemma grows_stable: "(\<And>I. stable I \<Longrightarrow> banner_stable I \<Longrightarrow> keeps I m) \<Longrightarrow> grows m"
  by (rule grows_from_keeps) (simp add: stable_prefix banner_stable_prefix)

lemma grows_isNative: "grows (isNative w)"
  by (rule grows_stable) (rule keeps_isNative)

lemma grows_loadAdMob: "grows (loadAdMob w)"
  by (rule grows_stable) (rule keeps_loadAdMob)

lemma grows_gate_closed: "grows (gate_closed w)"
  by (rule grows_stable) (rule keeps_gate_closed)

lemma grows_triggerRewarded: "grows (triggerRewarded w slotId g)"
  by (rule grows_stable) (rule keeps_triggerRewarded)

lemma grows_prepareInterstitial: "grows (prepareInterstitial w slotId g)"
  by (rule grows_stable) (rule keeps_prepareInterstitial)

section \<open>Which rejections reach the caller\<close>

lemma safe_returning: "safe w (returning x)"
  by (simp add: safe_def returning_def)

lemma safe_update: "safe w (update f)"
  by (simp add: safe_def update_def)

lemma safe_console_log: "safe w (console_log l)"
  by (simp add: console_log_def safe_update)

lemma safe_reading: "(\<And>x. safe w (f x)) \<Longrightarrow> safe w (reading g f)"
  unfolding safe_def reading_def by blast

lemma safe_if: "safe w a \<Longrightarrow> safe w b \<Longrightarrow> safe w (if c then a else b)"
  by simp

lemma loading_failure_later:
  assumes "trace st1 = trace st @ ext" and "loading_failure w e st1 st'"
  shows "loading_failure w e st st'"
proof -
  from assms(2) obtain pre c where
    t: "trace st' = trace st1 @ pre @ [c]" and c: "c \<in> set loading_calls"
    and r: "w (trace st') = RejectsWith e \<or> w (trace st') = ThrowsWith e"
    unfolding loading_failure_def by blast
  from t assms(1) have "trace st' = trace st @ (ext @ pre) @ [c]" by simp
  with c r show ?thesis unfolding loading_failure_def by blast
qed

lemma safe_and_then:
  assumes "grows m" and "safe w m" and "\<And>x. safe w (f x)"
  shows "safe w (and_then m f)"
  unfolding safe_def
proof (intro allI impI)
  fix st e st'
  assume run: "and_then m f st = (Raised e, st')"
  obtain r1 st1 where m: "m st = (r1, st1)" by (cases "m st")
  show "loading_failure w e st st'"
  proof (cases r1)
    case (Returned x)
    with run m have f: "f x st1 = (Raised e, st')" by (simp add: and_then_def)
    from assms(1) m obtain ext where "trace st1 = trace st @ ext"
      unfolding grows_def by blast
    moreover from assms(3) f have "loading_failure w e st1 st'"
      unfolding safe_def by blast
    ultimately show ?thesis by (rule loading_failure_later)
  next
    case (Raised e1)
    with run m have "m st = (Raised e, st')" by (simp add: and_then_def)
    with assms(2) show ?thesis unfolding safe_def by blast
  next
    case Suspended
    with run m show ?thesis by (simp add: and_then_def)
  qed
qed

lemma safe_try_catch:
  assumes "grows m" and "\<And>e. safe w (h e)"
  shows "safe w (try_catch m h)"
  unfolding safe_def
proof (intro allI impI)
  fix st e st'
  assume run: "try_catch m h st = (Raised e, st')"
  obtain r1 st1 where m: "m st = (r1, st1)" by (cases "m st")
  show "loading_failure w e st st'"
  proof (cases r1)
    case (Returned x)
    with run m show ?thesis by (simp add: try_catch_def)
  next
    case (Raised e1)
    with run m have h: "h e1 st1 = (Raised e, st')" by (simp add: try_catch_def)
    from assms(1) m obtain ext where "trace st1 = trace st @ ext"
      unfolding grows_def by blast
    moreover from assms(2) h have "loading_failure w e st1 st'"
      unfolding safe_def by blast
    ultimately show ?thesis by (rule loading_failure_later)
  next
    case Suspended
    with run m show ?thesis by (simp add: try_catch_def)
  qed
qed

lemma safe_awaited:
  assumes "c \<in> set loading_calls"
  shows "safe w (awaited w c)"
  unfolding safe_def
proof (intro allI impI)
  fix st e st'
  assume run: "awaited w c st = (Raised e, st')"
  then have st': "st' = st\<lparr>trace := trace st @ [c]\<rparr>"
    by (cases "w (trace st @ [c])") (simp_all add: awaited_def)
  from run have "w (trace st @ [c]) = RejectsWith e \<or> w (trace st @ [c]) = ThrowsWith e"
    by (cases "w (trace st @ [c])") (simp_all add: awaited_def)
  with st' assms have "trace st' = trace st @ [] @ [c] \<and> c \<in> set loading_calls \<and>
      (w (trace st') = RejectsWith e \<or> w (trace st') = ThrowsWith e)"
    by simp
  then show "loading_failure w e st st'"
    unfolding loading_failure_def by blast
qed

lemmas safe_rules =
  safe_returning safe_update safe_console_log safe_reading safe_if safe_and_then
  safe_try_catch

lemma grows_awaited: "grows (awaited w c)"
  by (rule grows_stable) (rule keeps_request)

lemma safe_isNative: "safe w (isNative w)"
  unfolding isNative_def
  by (intro safe_rules safe_awaited grows_awaited) (simp_all add: loading_calls_def)

lemma safe_loadAdMob: "safe w (loadAdMob w)"
  unfolding loadAdMob_def
  by (intro safe_rules safe_awaited grows_awaited) (simp_all add: loading_calls_def)

lemma safe_gate_closed: "safe w (gate_closed w)"
  unfolding gate_closed_def
  by (intro safe_rules safe_isNative grows_isNative)

lemma safe_hide: "safe w (hide w slotId)"
  unfolding hide_def
  apply (intro safe_rules safe_isNative grows_isNative safe_loadAdMob grows_loadAdMob)
  apply (rule grows_stable)
  apply (intro keeps_rules keeps_update; simp add: banner_stable_def)
  done

lemma safe_remove_slot: "safe w (remove_slot w slotId)"
  unfolding remove_slot_def
  apply (intro safe_rules safe_isNative grows_isNative safe_loadAdMob grows_loadAdMob)
  apply (rule grows_stable)
  apply (intro keeps_rules keeps_update; simp add: banner_stable_def)
  done


lemma safe_rewarded_flow:
  "safe w
     (and_then (loadAdMob w) (\<lambda>loaded.
        try_catch
          (and_then (awaited w c1) (\<lambda>prepared.
             and_then (awaited w c2) (\<lambda>r. returning (f r))))
          (\<lambda>e. and_then (console_log (l e)) (\<lambda>logged. returning None))))"
  apply (intro safe_rules safe_loadAdMob grows_loadAdMob)
   apply (rule grows_stable, intro keeps_rules; assumption)
  apply (rule grows_stable, intro keeps_rules; assumption)
  done

lemma safe_triggerRewarded: "safe w (triggerRewarded w slotId g)"
  unfolding triggerRewarded_def
  apply (intro safe_rules safe_gate_closed grows_gate_closed)
  subgoal for closed slot
    apply (cases slot; simp add: safe_rules)
    subgoal for cfg
      by (cases cfg; simp add: safe_rules safe_rewarded_flow)
    done
  done

lemma safe_prepare_flow:
  "safe w
     (and_then (loadAdMob w) (\<lambda>loaded.
        try_catch (and_then (awaited w c1) (\<lambda>prepared. returning ()))
          (\<lambda>e. returning ())))"
  apply (intro safe_rules safe_loadAdMob grows_loadAdMob)
  apply (rule grows_stable, intro keeps_rules; assumption)
  done

lemma safe_prepareInterstitial: "safe w (prepareInterstitial w slotId g)"
  unfolding prepareInterstitial_def
  apply (intro safe_rules safe_gate_closed grows_gate_closed)
  subgoal for closed slot
    apply (cases slot; simp add: safe_rules)
    subgoal for cfg
      by (cases cfg; simp add: safe_rules safe_prepare_flow)
    done
  done

lemma safe_interstitial_flow:
  assumes "\<And>st. trace (f st) = trace st"
  shows "safe w
     (and_then (loadAdMob w) (\<lambda>loaded.
        try_catch
          (and_then (awaited w c1) (\<lambda>prepared.
             and_then (awaited w c2) (\<lambda>shown. update f)))
          (\<lambda>e. console_log (l e))))"
  apply (intro safe_rules safe_loadAdMob grows_loadAdMob)
  apply (rule grows_from_keeps, intro keeps_rules keeps_update stable_prefix; simp add: assms)
  done

lemma safe_triggerInterstitial: "safe w (triggerInterstitial w slotId g)"
  unfolding triggerInterstitial_def
  apply (intro safe_rules)
  subgoal for slot
    apply (cases slot; simp add: safe_rules)
    subgoal for cfg
      by (cases cfg; simp add: safe_rules safe_interstitial_flow)
    done
  done

lemma safe_show_banner: "safe w (show_banner w slotId cfg g)"
  unfolding show_banner_def
  apply (intro safe_rules safe_loadAdMob grows_loadAdMob)
  apply (rule grows_from_keeps, intro keeps_rules keeps_update stable_prefix; simp)
  done

text \<open>
  Behind \<open>hasSlot\<close>, \<open>show\<close> and \<open>trigger\<close> read the registry entry and its \<open>type\<close> outside
  every \<open>try\<close>. When that read does not yield \<open>undefined\<close>, what they do with it is safe.
\<close>

lemma guarded_dispatch_rejects:
  assumes defined: "\<not> (hasSlot (registry st) slotId \<and> getSlot (registry st) slotId = JUndefined)"
    and dispatch: "\<And>slot. slot \<noteq> JUndefined \<Longrightarrow> safe w (f slot)"
    and run: "and_then (gate_closed w) (\<lambda>closed.
        if closed then returning ()
        else reading (\<lambda>st. hasSlot (registry st) slotId) (\<lambda>known.
          if \<not> known then console_log l
          else reading (\<lambda>st. getSlot (registry st) slotId) f)) st = (Raised e, st')"
  shows "loading_failure w e st st'"
proof -
  obtain r1 st1 where gate: "gate_closed w st = (r1, st1)" by (cases "gate_closed w st")
  have "stable (\<lambda>s. registry s = registry st)" by (simp add: stable_def)
  then have "keeps (\<lambda>s. registry s = registry st) (gate_closed w)" by (rule keeps_gate_closed)
  with gate have reg: "registry st1 = registry st" unfolding keeps_def by blast
  from grows_gate_closed gate obtain ext where ext: "trace st1 = trace st @ ext"
    unfolding grows_def by blast
  show ?thesis
  proof (cases r1)
    case (Returned closed)
    show ?thesis
    proof (cases closed)
      case True
      with run gate Returned show ?thesis by (simp add: and_then_def returning_def)
    next
      case False
      show ?thesis
      proof (cases "hasSlot (registry st) slotId")
        case True
        with defined have "getSlot (registry st) slotId \<noteq> JUndefined" by simp
        then have "safe w (f (getSlot (registry st) slotId))" by (rule dispatch)
        moreover from run gate Returned False True reg
        have "f (getSlot (registry st) slotId) st1 = (Raised e, st')"
          by (simp add: and_then_def reading_def)
        ultimately have "loading_failure w e st1 st'" unfolding safe_def by blast
        with ext show ?thesis by (rule loading_failure_later)
      next
        case no: False
        with run gate Returned False reg show ?thesis
          by (simp add: and_then_def reading_def console_log_def update_def)
      qed
    qed
  next
    case (Raised e1)
    with run gate have "gate_closed w st = (Raised e, st')" by (simp add: and_then_def)
    with safe_gate_closed show ?thesis unfolding safe_def by blast
  next
    case Suspended
    with run gate show ?thesis by (simp add: and_then_def)
  qed
qed

lemma show_slot_rejects:
  assumes "\<not> (hasSlot (registry st) slotId \<and> getSlot (registry st) slotId = JUndefined)"
    and "show_slot w slotId g st = (Raised e, st')"
  shows "loading_failure w e st st'"
proof (rule guarded_dispatch_rejects [OF assms(1) _ assms(2) [unfolded show_slot_def]])
  fix slot :: js_value
  assume "slot \<noteq> JUndefined"
  then show "safe w
     (case slot of
        JUndefined \<Rightarrow> (\<lambda>st. (Raised ''TypeError'', st))
      | JConfig (BannerSlotConfig a p s m t) \<Rightarrow>
          show_banner w slotId (BannerSlotConfig a p s m t) g
      | JConfig (InterstitialSlotConfig a t) \<Rightarrow> triggerInterstitial w slotId g
      | JConfig (RewardedSlotConfig a t) \<Rightarrow>
          and_then (triggerRewarded w slotId g) (\<lambda>r. returning ())
      | _ \<Rightarrow> returning ())"
    apply (cases slot; simp add: safe_rules)
    subgoal for cfg
      by (cases cfg; simp add: safe_show_banner safe_triggerInterstitial;
          intro safe_rules safe_triggerRewarded grows_triggerRewarded)
    done
qed

lemma trigger_rejects:
  assumes "\<not> (hasSlot (registry st) slotId \<and> getSlot (registry st) slotId = JUndefined)"
    and "trigger w slotId g st = (Raised e, st')"
  shows "loading_failure w e st st'"
proof (rule guarded_dispatch_rejects [OF assms(1) _ assms(2) [unfolded trigger_def]])
  fix slot :: js_value
  assume "slot \<noteq> JUndefined"
  then show "safe w
     (case slot of
        JUndefined \<Rightarrow> (\<lambda>st. (Raised ''TypeError'', st))
      | JConfig (InterstitialSlotConfig a t) \<Rightarrow> triggerInterstitial w slotId g
      | JConfig (RewardedSlotConfig a t) \<Rightarrow>
          and_then (triggerRewarded w slotId g) (\<lambda>r. returning ())
      | _ \<Rightarrow>
          console_log
            (Console_warn
               [''[capacitor-ad-slots] trigger() is for interstitial/rewarded. Use show() for banners: ''
                @ slotId]))"
    apply (cases slot; simp add: safe_rules)
    subgoal for cfg
      by (cases cfg; simp add: safe_rules safe_triggerInterstitial;
          intro safe_rules safe_triggerRewarded grows_triggerRewarded)
    done
qed

lemma safe_prepareInterstitialSlot: "safe w (prepareInterstitialSlot w slotId g)"
  unfolding prepareInterstitialSlot_def
  by (intro safe_rules safe_prepareInterstitial grows_prepareInterstitial)

lemma safe_initialize: "safe w (initialize w options)"
  unfolding initialize_def
  apply (intro safe_rules safe_isNative grows_isNative safe_loadAdMob grows_loadAdMob)
  apply (rule grows_from_keeps)
  apply (intro keeps_rules keeps_update keeps_consent_flow stable_prefix; simp)
  done

lemma run_op_rejects:
  assumes "reads_defined op st" and "run_op w op st = (Raised e, st')"
  shows "loading_failure w e st st'"
proof (cases op)
  case (Op_initialize options)
  with assms(2) safe_initialize [of w options] show ?thesis unfolding safe_def by simp
next
  case (Op_show slotId g)
  with assms show ?thesis by (simp add: reads_defined_def show_slot_rejects)
next
  case (Op_hide slotId)
  with assms(2) safe_hide [of w slotId] show ?thesis unfolding safe_def by simp
next
  case (Op_remove slotId)
  with assms(2) safe_remove_slot [of w slotId] show ?thesis unfolding safe_def by simp
next
  case (Op_trigger slotId g)
  with assms show ?thesis by (simp add: reads_defined_def trigger_rejects)
next
  case (Op_triggerRewarded slotId g)
  have "safe w (and_then (triggerRewarded w slotId g) (\<lambda>r. returning ()))"
    by (intro safe_rules safe_triggerRewarded grows_triggerRewarded)
  with assms(2) Op_triggerRewarded show ?thesis unfolding safe_def by simp
next
  case (Op_prepareInterstitialSlot slotId g)
  with assms(2) safe_prepareInterstitialSlot [of w slotId g] show ?thesis
    unfolding safe_def by simp
next
  case (Op_setAdsRemoved removed)
  with assms(2) show ?thesis by (simp add: update_def)
qed

text \<open>
  \<open>ready_state\<close> is the state after \<open>initialize()\<close> on a native host where every request
  resolves, but for the trace.
\<close>

lemma ready_reachable:
  "snd (run_op cooperative_world (Op_initialize default_options)
          (initial_state\<lparr>registry := demo_registry\<rparr>))
     = ready_state\<lparr>trace := [ImportCapacitorCore, Capacitor_isNativePlatform, ImportAdMob,
          AdMob_initialize None False, AdMob_requestConsentInfo NOT_EEA None,
          AdMob_addListener BannerAd_FailedToLoad, AdMob_addListener InterstitialAd_FailedToLoad]\<rparr>"
  by (simp add: initialize_def and_then_def try_catch_def isNative_def awaited_def called_def
      cooperative_world_def consent_flow_def update_def default_options_def ready_state_def
      initial_state_def returning_def loadAdMob_def reading_def native_payload_def)


section \<open>Host detection, the guard and the lazy import\<close>

lemma isNative_Returned:
  assumes "isNative w st = (Returned n, st1)"
  shows "st1 = st\<lparr>trace := trace st @ [ImportCapacitorCore, Capacitor_isNativePlatform]\<rparr>"
proof (cases "w (trace st @ [ImportCapacitorCore])")
  case (Resolves p)
  with assms show ?thesis
    by (cases "w (trace st @ [ImportCapacitorCore, Capacitor_isNativePlatform])")
      (simp_all add: isNative_def and_then_def awaited_def returning_def)
qed (use assms in \<open>simp_all add: isNative_def and_then_def awaited_def\<close>)

lemma gate_closed_off:
  "\<not> isInitialized st \<or> adsRemoved st \<Longrightarrow> gate_closed w st = (Returned True, st)"
  by (auto simp: gate_closed_def reading_def returning_def)

lemma gate_closed_host:
  "isInitialized st \<Longrightarrow> \<not> adsRemoved st \<Longrightarrow> isNative w st = (Returned n, st1) \<Longrightarrow>
     gate_closed w st = (Returned (\<not> n), st1)"
  by (simp add: gate_closed_def reading_def and_then_def returning_def)

lemma loadAdMob_bound: "AdMob st \<Longrightarrow> loadAdMob w st = (Returned (), st)"
  by (simp add: loadAdMob_def reading_def returning_def)

lemma loadAdMob_Returned:
  assumes "loadAdMob w st = (Returned u, st2)"
  shows "AdMob st2 \<and> currentBannerSlot st2 = currentBannerSlot st \<and>
         registry st2 = registry st \<and> isInitialized st2 = isInitialized st \<and>
         adsRemoved st2 = adsRemoved st"
proof (cases "AdMob st")
  case True
  with assms show ?thesis by (simp add: loadAdMob_bound)
next
  case False
  with assms show ?thesis
    by (cases "w (trace st @ [ImportAdMob])")
      (auto simp: loadAdMob_def reading_def and_then_def awaited_def update_def)
qed

section \<open>The invariant of the module\<close>

lemma stable_module_invariant: "stable module_invariant"
  by (simp add: stable_def module_invariant_def)

lemma banner_stable_module_invariant: "banner_stable module_invariant"
  by (simp add: banner_stable_def module_invariant_def)

lemma keeps_and_then_post:
  assumes "keeps I m" and "\<And>st x st1. m st = (Returned x, st1) \<Longrightarrow> J st1"
    and "\<And>x. keeps J (f x)" and "\<And>s. J s \<Longrightarrow> I s"
  shows "keeps I (and_then m f)"
  unfolding keeps_def
proof (intro allI impI)
  fix st r st'
  assume I: "I st" and run: "and_then m f st = (r, st')"
  obtain r1 st1 where m: "m st = (r1, st1)" by (cases "m st")
  with assms(1) I have I1: "I st1" unfolding keeps_def by blast
  show "I st'"
  proof (cases r1)
    case (Returned x)
    with m have "J st1" using assms(2) by blast
    moreover from run m Returned have "f x st1 = (r, st')" by (simp add: and_then_def)
    ultimately have "J st'" using assms(3) unfolding keeps_def by blast
    then show ?thesis by (rule assms(4))
  next
    case (Raised e)
    with run m I1 show ?thesis by (simp add: and_then_def)
  next
    case Suspended
    with run m I1 show ?thesis by (simp add: and_then_def)
  qed
qed

lemma keeps_invariant_initialize: "keeps module_invariant (initialize w options)"
  unfolding initialize_def
  apply (rule keeps_and_then [OF keeps_isNative [OF stable_module_invariant]])
  apply (rule keeps_if, rule keeps_returning)
  apply (rule keeps_and_then_post [where J = AdMob])
     apply (rule keeps_loadAdMob [OF stable_module_invariant])
    apply (simp add: loadAdMob_Returned)
   apply (intro keeps_rules keeps_consent_flow keeps_update stable_AdMob; simp)
  apply (simp add: module_invariant_def)
  done

lemma keeps_invariant_run_op: "keeps module_invariant (run_op w op)"
proof (cases op)
  case (Op_setAdsRemoved removed)
  then show ?thesis
    by (simp add: keeps_def update_def setAdsRemoved_def module_invariant_def Let_def
        split: option.splits)
next
  case (Op_triggerRewarded slotId g)
  then show ?thesis
    by (simp, intro keeps_rules keeps_triggerRewarded stable_module_invariant)
qed (simp_all add: keeps_invariant_initialize keeps_show_slot keeps_hide keeps_remove_slot
      keeps_trigger keeps_prepareInterstitialSlot stable_module_invariant
      banner_stable_module_invariant)

lemma module_invariant_initial: "module_invariant initial_state"
  by (simp add: module_invariant_def initial_state_def)

lemma module_invariant_step:
  "module_invariant st \<Longrightarrow> module_invariant (snd (run_op w op st))"
  using keeps_invariant_run_op [of w op] unfolding keeps_def
  by (cases "run_op w op st") auto


lemma keeps_invariant_run_task: "keeps module_invariant (run_task w t)"
  by (cases t)
    (simp_all add: keeps_hide keeps_prepareInterstitial stable_module_invariant
      banner_stable_module_invariant)

lemma reachable_invariant: "reachable st \<Longrightarrow> module_invariant st"
proof (induction rule: reachable.induct)
  case reachable_initial
  show ?case by (rule module_invariant_initial)
next
  case (reachable_define st c)
  then show ?case by (simp add: module_invariant_def)
next
  case (reachable_op st w op)
  then show ?case by (simp add: module_invariant_step)
next
  case (reachable_task st w t)
  with keeps_invariant_run_task [of w t] show ?case
    unfolding keeps_def by (cases "run_task w t st") auto
qed


section \<open>hide\<close>

lemma hide_noop:
  assumes "isNative w st = (Returned n, st1)"
    and "\<not> n \<or> currentBannerSlot st \<noteq> Some slotId"
  shows "hide w slotId st = (Returned (), st1)"
proof -
  from assms(1) have "currentBannerSlot st1 = currentBannerSlot st"
    by (simp add: isNative_Returned [OF assms(1)])
  with assms show ?thesis
    by (auto simp: hide_def and_then_def reading_def returning_def)
qed

lemma hide_issued:
  assumes "isNative w st = (Returned True, st1)" and "currentBannerSlot st = Some slotId"
    and "loadAdMob w st1 = (Returned (), st2)"
  shows "hide w slotId st =
           try_catch
             (and_then (awaited w AdMob_hideBanner)
                (\<lambda>hidden. update (\<lambda>st. st\<lparr>currentBannerSlot := None\<rparr>)))
             (\<lambda>e. console_log
                (Console_error
                   [''[capacitor-ad-slots] Failed to hide banner '' @ slotId @ '':'', e])) st2"
proof -
  from assms(1) have "currentBannerSlot st1 = currentBannerSlot st"
    by (simp add: isNative_Returned [OF assms(1)])
  with assms show ?thesis
    by (simp add: hide_def and_then_def reading_def)
qed

lemma hide_resolved:
  assumes "isNative w st = (Returned True, st1)" and "currentBannerSlot st = Some slotId"
    and "loadAdMob w st1 = (Returned (), st2)"
    and "w (trace st2 @ [AdMob_hideBanner]) = Resolves p"
  shows "hide w slotId st =
           (Returned (), st2\<lparr>trace := trace st2 @ [AdMob_hideBanner], currentBannerSlot := None\<rparr>)"
  using assms(4)
  by (simp add: hide_issued [OF assms(1-3)] try_catch_def and_then_def awaited_def update_def)

lemma hide_rejected:
  assumes "isNative w st = (Returned True, st1)" and "currentBannerSlot st = Some slotId"
    and "loadAdMob w st1 = (Returned (), st2)"
    and "w (trace st2 @ [AdMob_hideBanner]) = RejectsWith e \<or>
         w (trace st2 @ [AdMob_hideBanner]) = ThrowsWith e"
  shows "hide w slotId st =
           (Returned (),
            st2\<lparr>trace := trace st2 @ [AdMob_hideBanner],
                console := console st2 @
                  [Console_error
                     [''[capacitor-ad-slots] Failed to hide banner '' @ slotId @ '':'', e]]\<rparr>)"
  using assms(4)
  by (auto simp add: hide_issued [OF assms(1-3)] try_catch_def and_then_def awaited_def
      update_def console_log_def)

lemma hide_current_kept:
  assumes "isNative w st = (Returned True, st1)" and "loadAdMob w st1 = (Returned (), st2)"
  shows "currentBannerSlot st2 = currentBannerSlot st"
  using loadAdMob_Returned [OF assms(2)] isNative_Returned [OF assms(1)] by simp

text \<open>
  Claim C6. Let the host detection answer \<open>n\<close>; it sends its two requests and changes no
  variable. When the host is not native or \<open>slotId\<close> is not the current banner slot,
  \<open>hide(slotId)\<close> returns there: no request to the plugin, no variable changed. Otherwise,
  once the plugin binding is there, it sends the hide request; when that resolves,
  \<open>currentBannerSlot\<close> is cleared; when it is rejected or throws, the error is logged,
  \<open>hide\<close> returns normally and \<open>currentBannerSlot\<close> is still \<open>slotId\<close>.
\<close>

theorem hide_spec:
  assumes "isNative w st = (Returned n, st1)"
  shows "st1 = st\<lparr>trace := trace st @ [ImportCapacitorCore, Capacitor_isNativePlatform]\<rparr>
    \<and> (\<not> n \<or> currentBannerSlot st \<noteq> Some slotId \<longrightarrow> hide w slotId st = (Returned (), st1))
    \<and> (n \<and> currentBannerSlot st = Some slotId \<and> loadAdMob w st1 = (Returned (), st2) \<longrightarrow>
         (w (trace st2 @ [AdMob_hideBanner]) = Resolves p \<longrightarrow>
            hide w slotId st =
              (Returned (),
               st2\<lparr>trace := trace st2 @ [AdMob_hideBanner], currentBannerSlot := None\<rparr>))
       \<and> (w (trace st2 @ [AdMob_hideBanner]) = RejectsWith e \<or>
          w (trace st2 @ [AdMob_hideBanner]) = ThrowsWith e \<longrightarrow>
            hide w slotId st =
              (Returned (),
               st2\<lparr>trace := trace st2 @ [AdMob_hideBanner],
                   console := console st2 @
                     [Console_error
                        [''[capacitor-ad-slots] Failed to hide banner '' @ slotId @ '':'', e]]\<rparr>)
            \<and> currentBannerSlot st2 = Some slotId))"
proof (intro conjI impI)
  show "st1 = st\<lparr>trace := trace st @ [ImportCapacitorCore, Capacitor_isNativePlatform]\<rparr>"
    using assms by (rule isNative_Returned)
next
  assume "\<not> n \<or> currentBannerSlot st \<noteq> Some slotId"
  with assms show "hide w slotId st = (Returned (), st1)" by (rule hide_noop)
next
  assume h: "n \<and> currentBannerSlot st = Some slotId \<and> loadAdMob w st1 = (Returned (), st2)"
    and r: "w (trace st2 @ [AdMob_hideBanner]) = Resolves p"
  from h assms have "isNative w st = (Returned True, st1)" by simp
  with h r show "hide w slotId st =
      (Returned (), st2\<lparr>trace := trace st2 @ [AdMob_hideBanner], currentBannerSlot := None\<rparr>)"
    by (simp add: hide_resolved)
next
  assume h: "n \<and> currentBannerSlot st = Some slotId \<and> loadAdMob w st1 = (Returned (), st2)"
    and r: "w (trace st2 @ [AdMob_hideBanner]) = RejectsWith e \<or>
          w (trace st2 @ [AdMob_hideBanner]) = ThrowsWith e"
  from h assms have n: "isNative w st = (Returned True, st1)" by simp
  from h have c: "currentBannerSlot st = Some slotId"
    and l: "loadAdMob w st1 = (Returned (), st2)" by simp_all
  show "hide w slotId st =
      (Returned (),
       st2\<lparr>trace := trace st2 @ [AdMob_hideBanner],
           console := console st2 @
             [Console_error
                [''[capacitor-ad-slots] Failed to hide banner '' @ slotId @ '':'', e]]\<rparr>)"
    using n c l r by (rule hide_rejected)
  show "currentBannerSlot st2 = Some slotId"
    using hide_current_kept [OF n l] c by simp
qed


text \<open>The examples: what the three worlds answer to host detection.\<close>

lemma isNative_cooperative:
  "isNative cooperative_world st = (Returned True, host_asked st)"
  by (simp add: isNative_def and_then_def awaited_def returning_def cooperative_world_def
      native_payload_def host_asked_def)

lemma isNative_web: "isNative web_world st = (Returned False, host_asked st)"
  by (simp add: isNative_def and_then_def awaited_def returning_def web_world_def
      web_payload_def native_payload_def host_asked_def)

lemma isNative_failing:
  "c \<noteq> ImportCapacitorCore \<Longrightarrow> c \<noteq> Capacitor_isNativePlatform \<Longrightarrow>
     isNative (failing_world c) st = (Returned True, host_asked st)"
  by (simp add: isNative_def and_then_def awaited_def returning_def failing_world_def
      native_payload_def host_asked_def)

lemma shown_state_simps:
  "AdMob shown_state" "currentBannerSlot shown_state = Some ''b1''" "trace shown_state = []"
  "console shown_state = []" "isInitialized shown_state" "\<not> adsRemoved shown_state"
  by (simp_all add: shown_state_def ready_state_def initial_state_def)

lemma host_asked_simps:
  "AdMob (host_asked st) = AdMob st" "currentBannerSlot (host_asked st) = currentBannerSlot st"
  "trace (host_asked st) = trace st @ [ImportCapacitorCore, Capacitor_isNativePlatform]"
  "console (host_asked st) = console st" "registry (host_asked st) = registry st"
  "isInitialized (host_asked st) = isInitialized st" "adsRemoved (host_asked st) = adsRemoved st"
  "detached (host_asked st) = detached st"
  by (simp_all add: host_asked_def)

theorem hide_spec_witness:
  "isNative web_world shown_state = (Returned False, host_asked shown_state)
   \<and> hide web_world ''b1'' shown_state = (Returned (), host_asked shown_state)
   \<and> isNative cooperative_world shown_state = (Returned True, host_asked shown_state)
   \<and> hide cooperative_world ''b2'' shown_state = (Returned (), host_asked shown_state)
   \<and> hide cooperative_world ''b1'' shown_state =
       (Returned (),
        shown_state\<lparr>trace := [ImportCapacitorCore, Capacitor_isNativePlatform, AdMob_hideBanner],
                    currentBannerSlot := None\<rparr>)
   \<and> hide (failing_world AdMob_hideBanner) ''b1'' shown_state =
       (Returned (),
        shown_state\<lparr>trace := [ImportCapacitorCore, Capacitor_isNativePlatform, AdMob_hideBanner],
                    console := [Console_error
                       [''[capacitor-ad-slots] Failed to hide banner b1:'', ''failed'']]\<rparr>)
   \<and> currentBannerSlot (host_asked shown_state) = Some ''b1''"
proof -
  have web: "isNative web_world shown_state = (Returned False, host_asked shown_state)"
    by (rule isNative_web)
  have coop: "isNative cooperative_world shown_state = (Returned True, host_asked shown_state)"
    by (rule isNative_cooperative)
  have bad: "isNative (failing_world AdMob_hideBanner) shown_state
      = (Returned True, host_asked shown_state)"
    by (rule isNative_failing) simp_all
  have load: "loadAdMob w (host_asked shown_state) = (Returned (), host_asked shown_state)" for w
    by (simp add: loadAdMob_bound host_asked_simps shown_state_simps)
  have a: "hide web_world ''b1'' shown_state = (Returned (), host_asked shown_state)"
    using hide_spec [OF web, of "''b1''"] by simp
  have b: "hide cooperative_world ''b2'' shown_state = (Returned (), host_asked shown_state)"
    using hide_spec [OF coop, of "''b2''"] by (simp add: shown_state_simps)
  have c: "hide cooperative_world ''b1'' shown_state =
       (Returned (),
        shown_state\<lparr>trace := [ImportCapacitorCore, Capacitor_isNativePlatform, AdMob_hideBanner],
                    currentBannerSlot := None\<rparr>)"
    using hide_spec [OF coop, of "''b1''" "host_asked shown_state" native_payload] load
    by (simp add: shown_state_simps host_asked_simps cooperative_world_def host_asked_def)
  have d: "hide (failing_world AdMob_hideBanner) ''b1'' shown_state =
       (Returned (),
        shown_state\<lparr>trace := [ImportCapacitorCore, Capacitor_isNativePlatform, AdMob_hideBanner],
                    console := [Console_error
                       [''[capacitor-ad-slots] Failed to hide banner b1:'', ''failed'']]\<rparr>)
       \<and> currentBannerSlot (host_asked shown_state) = Some ''b1''"
    using hide_spec [OF bad, of "''b1''" "host_asked shown_state" _ "''failed''"] load
    by (simp add: shown_state_simps host_asked_simps failing_world_def host_asked_def)
  from web coop a b c d show ?thesis by simp
qed


section \<open>triggerRewarded\<close>

lemma triggerRewarded_gate_off:
  "\<not> isInitialized st \<or> adsRemoved st \<Longrightarrow>
     triggerRewarded w slotId g st = (Returned None, st)"
  by (simp add: triggerRewarded_def and_then_def gate_closed_off returning_def)

lemma triggerRewarded_not_native:
  assumes "isInitialized st" and "\<not> adsRemoved st"
    and "isNative w st = (Returned False, st1)"
  shows "triggerRewarded w slotId g st = (Returned None, st1)"
  using gate_closed_host [OF assms]
  by (simp add: triggerRewarded_def and_then_def returning_def)

lemma triggerRewarded_open:
  assumes "isInitialized st" and "\<not> adsRemoved st"
    and "isNative w st = (Returned True, st1)"
  shows "triggerRewarded w slotId g st =
     (case getSlot (registry st) slotId of
        JConfig (RewardedSlotConfig a t) \<Rightarrow>
          and_then (loadAdMob w) (\<lambda>loaded.
            try_catch
              (and_then
                 (awaited w
                    (AdMob_prepareRewardVideoAd a
                       (resolveTesting (RewardedSlotConfig a t) g)))
                 (\<lambda>prepared.
                    and_then (awaited w AdMob_showRewardVideoAd) (\<lambda>r.
                      returning (Some \<lparr>amount = reward_amount r, type = reward_type r\<rparr>))))
              (\<lambda>e.
                 and_then
                   (console_log
                      (Console_error
                         [''[capacitor-ad-slots] Failed to show rewarded '' @ slotId @ '':'',
                          e]))
                   (\<lambda>logged. returning None))) st1
      | _ \<Rightarrow> (Returned None, st1))"
proof -
  have "registry st1 = registry st"
    by (simp add: isNative_Returned [OF assms(3)])
  with gate_closed_host [OF assms] show ?thesis
    by (simp add: triggerRewarded_def and_then_def reading_def returning_def
        split: js_value.split AdSlotConfig.split)
qed

lemma triggerRewarded_other_slot:
  assumes "isInitialized st" and "\<not> adsRemoved st"
    and "isNative w st = (Returned True, st1)"
    and "\<forall>a t. getSlot (registry st) slotId \<noteq> JConfig (RewardedSlotConfig a t)"
  shows "triggerRewarded w slotId g st = (Returned None, st1)"
  using assms(4)
  by (simp add: triggerRewarded_open [OF assms(1-3)] split: js_value.split AdSlotConfig.split)

lemma triggerRewarded_granted:
  assumes "isInitialized st" and "\<not> adsRemoved st"
    and "isNative w st = (Returned True, st1)"
    and "getSlot (registry st) slotId = JConfig (RewardedSlotConfig a t)"
    and "AdMob st"
    and "w (trace st1 @ [AdMob_prepareRewardVideoAd a (resolveTesting (RewardedSlotConfig a t) g)])
           = Resolves p1"
    and "w (trace st1 @ [AdMob_prepareRewardVideoAd a (resolveTesting (RewardedSlotConfig a t) g),
                         AdMob_showRewardVideoAd]) = Resolves p2"
  shows "triggerRewarded w slotId g st =
     (Returned (Some \<lparr>amount = reward_amount p2, type = reward_type p2\<rparr>),
      st1\<lparr>trace := trace st1 @
             [AdMob_prepareRewardVideoAd a (resolveTesting (RewardedSlotConfig a t) g),
              AdMob_showRewardVideoAd]\<rparr>)"
proof -
  have "AdMob st1" using assms(5) by (simp add: isNative_Returned [OF assms(3)])
  then have "loadAdMob w st1 = (Returned (), st1)" by (rule loadAdMob_bound)
  with assms(4,6,7) show ?thesis
    by (simp add: triggerRewarded_open [OF assms(1-3)] and_then_def try_catch_def awaited_def
        returning_def)
qed

lemma triggerRewarded_prepare_fails:
  assumes "isInitialized st" and "\<not> adsRemoved st"
    and "isNative w st = (Returned True, st1)"
    and "getSlot (registry st) slotId = JConfig (RewardedSlotConfig a t)"
    and "AdMob st"
    and "w (trace st1 @ [AdMob_prepareRewardVideoAd a (resolveTesting (RewardedSlotConfig a t) g)])
           = RejectsWith e \<or>
         w (trace st1 @ [AdMob_prepareRewardVideoAd a (resolveTesting (RewardedSlotConfig a t) g)])
           = ThrowsWith e"
  shows "fst (triggerRewarded w slotId g st) = Returned None"
proof -
  have "AdMob st1" using assms(5) by (simp add: isNative_Returned [OF assms(3)])
  then have "loadAdMob w st1 = (Returned (), st1)" by (rule loadAdMob_bound)
  with assms(4,6) show ?thesis
    by (auto simp add: triggerRewarded_open [OF assms(1-3)] and_then_def try_catch_def
        awaited_def returning_def console_log_def update_def)
qed

lemma triggerRewarded_show_fails:
  assumes "isInitialized st" and "\<not> adsRemoved st"
    and "isNative w st = (Returned True, st1)"
    and "getSlot (registry st) slotId = JConfig (RewardedSlotConfig a t)"
    and "AdMob st"
    and "w (trace st1 @ [AdMob_prepareRewardVideoAd a (resolveTesting (RewardedSlotConfig a t) g)])
           = Resolves p1"
    and "w (trace st1 @ [AdMob_prepareRewardVideoAd a (resolveTesting (RewardedSlotConfig a t) g),
                         AdMob_showRewardVideoAd]) = RejectsWith e \<or>
         w (trace st1 @ [AdMob_prepareRewardVideoAd a (resolveTesting (RewardedSlotConfig a t) g),
                         AdMob_showRewardVideoAd]) = ThrowsWith e"
  shows "fst (triggerRewarded w slotId g st) = Returned None"
proof -
  have "AdMob st1" using assms(5) by (simp add: isNative_Returned [OF assms(3)])
  then have "loadAdMob w st1 = (Returned (), st1)" by (rule loadAdMob_bound)
  with assms(4,6,7) show ?thesis
    by (auto simp add: triggerRewarded_open [OF assms(1-3)] and_then_def try_catch_def
        awaited_def returning_def console_log_def update_def)
qed

text \<open>
  Claim C2. In a state of the module (the plugin binding is set whenever \<open>isInitialized\<close>
  is), \<open>triggerRewarded(slotId, globalTesting)\<close> returns \<open>null\<close> at once, without any
  request, when \<open>isInitialized\<close> is false or \<open>adsRemoved\<close> is true; it returns \<open>null\<close> when
  the host is not native, and when the registry gives no configuration of type rewarded
  for \<open>slotId\<close>. For a rewarded slot on a native host it sends the prepare request with the
  resolved test flag and then the show request: when both resolve it returns the amount
  and the type of the reward that the show request resolved with; when either is rejected
  or throws it returns \<open>null\<close>.
\<close>

theorem triggerRewarded_spec:
  assumes "module_invariant st"
  shows
    "(\<not> isInitialized st \<or> adsRemoved st \<longrightarrow>
        triggerRewarded w slotId g st = (Returned None, st))
   \<and> (isInitialized st \<and> \<not> adsRemoved st \<and> isNative w st = (Returned False, st1) \<longrightarrow>
        triggerRewarded w slotId g st = (Returned None, st1))
   \<and> (isInitialized st \<and> \<not> adsRemoved st \<and> isNative w st = (Returned True, st1) \<longrightarrow>
        ((\<forall>a t. getSlot (registry st) slotId \<noteq> JConfig (RewardedSlotConfig a t)) \<longrightarrow>
           triggerRewarded w slotId g st = (Returned None, st1))
      \<and> (getSlot (registry st) slotId = JConfig (RewardedSlotConfig a t) \<longrightarrow>
           (w (trace st1 @
                 [AdMob_prepareRewardVideoAd a (resolveTesting (RewardedSlotConfig a t) g)])
              = Resolves p1 \<and>
            w (trace st1 @
                 [AdMob_prepareRewardVideoAd a (resolveTesting (RewardedSlotConfig a t) g),
                  AdMob_showRewardVideoAd]) = Resolves p2 \<longrightarrow>
              triggerRewarded w slotId g st =
                (Returned (Some \<lparr>amount = reward_amount p2, type = reward_type p2\<rparr>),
                 st1\<lparr>trace := trace st1 @
                   [AdMob_prepareRewardVideoAd a (resolveTesting (RewardedSlotConfig a t) g),
                    AdMob_showRewardVideoAd]\<rparr>))
         \<and> (w (trace st1 @
                 [AdMob_prepareRewardVideoAd a (resolveTesting (RewardedSlotConfig a t) g)])
              = RejectsWith e \<or>
            w (trace st1 @
                 [AdMob_prepareRewardVideoAd a (resolveTesting (RewardedSlotConfig a t) g)])
              = ThrowsWith e \<longrightarrow>
              fst (triggerRewarded w slotId g st) = Returned None)
         \<and> (w (trace st1 @
                 [AdMob_prepareRewardVideoAd a (resolveTesting (RewardedSlotConfig a t) g)])
              = Resolves p1 \<and>
            (w (trace st1 @
                 [AdMob_prepareRewardVideoAd a (resolveTesting (RewardedSlotConfig a t) g),
                  AdMob_showRewardVideoAd]) = RejectsWith e \<or>
             w (trace st1 @
                 [AdMob_prepareRewardVideoAd a (resolveTesting (RewardedSlotConfig a t) g),
                  AdMob_showRewardVideoAd]) = ThrowsWith e) \<longrightarrow>
              fst (triggerRewarded w slotId g st) = Returned None)))"
proof -
  have bound: "isInitialized st \<Longrightarrow> AdMob st"
    using assms by (simp add: module_invariant_def)
  show ?thesis
    apply (intro conjI impI)
         apply (erule triggerRewarded_gate_off)
        apply (simp add: triggerRewarded_not_native)
       apply (simp add: triggerRewarded_other_slot)
      apply (simp add: triggerRewarded_granted bound)
     apply (rule triggerRewarded_prepare_fails [where ?st1.0 = st1 and a = a and t = t and e = e];
        simp add: bound)
    apply (rule triggerRewarded_show_fails
        [where ?st1.0 = st1 and a = a and t = t and e = e and ?p1.0 = p1]; simp add: bound)
    done
qed


lemma ready_state_simps:
  "AdMob ready_state" "currentBannerSlot ready_state = None" "trace ready_state = []"
  "console ready_state = []" "isInitialized ready_state" "\<not> adsRemoved ready_state"
  "registry ready_state = demo_registry" "detached ready_state = []"
  by (simp_all add: ready_state_def initial_state_def)

lemma demo_registry_slots:
  "getSlot demo_registry ''r1'' = JConfig (RewardedSlotConfig ''ad-r'' Absent)"
  "getSlot demo_registry ''missing'' = JUndefined"
  "getSlot demo_registry ''b2'' =
     JConfig (BannerSlotConfig ''ad-2'' (Present top_position) (Present smart) (Present 4) Absent)"
  "getSlot demo_registry [] = JConfig (BannerSlotConfig ''ad-0'' Absent Absent Absent Absent)"
  "getSlot demo_registry ''b1'' = JConfig (BannerSlotConfig ''ad-1'' Absent Absent Absent (Present True))"
  "hasSlot demo_registry ''r1''" "hasSlot demo_registry ''b2''" "hasSlot demo_registry []"
  by (simp_all add: demo_registry_def defineSlots_def js_set_def getSlot_def js_get_def
      hasSlot_def js_in_def empty_registry_def inherited_property_def object_prototype_keys_def)

lemma module_invariant_ready: "module_invariant ready_state"
  by (simp add: module_invariant_def ready_state_simps)

theorem triggerRewarded_spec_witness:
  "module_invariant ready_state \<and> module_invariant initial_state
   \<and> \<not> isInitialized initial_state
   \<and> triggerRewarded cooperative_world ''r1'' None initial_state = (Returned None, initial_state)
   \<and> isInitialized ready_state \<and> \<not> adsRemoved ready_state
   \<and> isNative web_world ready_state = (Returned False, host_asked ready_state)
   \<and> triggerRewarded web_world ''r1'' None ready_state = (Returned None, host_asked ready_state)
   \<and> isNative cooperative_world ready_state = (Returned True, host_asked ready_state)
   \<and> triggerRewarded cooperative_world ''missing'' None ready_state
        = (Returned None, host_asked ready_state)
   \<and> getSlot (registry ready_state) ''r1'' = JConfig (RewardedSlotConfig ''ad-r'' Absent)
   \<and> triggerRewarded cooperative_world ''r1'' None ready_state
        = (Returned (Some \<lparr>amount = 10, type = ''coins''\<rparr>),
           ready_state\<lparr>trace := [ImportCapacitorCore, Capacitor_isNativePlatform,
              AdMob_prepareRewardVideoAd ''ad-r'' False, AdMob_showRewardVideoAd]\<rparr>)
   \<and> fst (triggerRewarded (failing_world (AdMob_prepareRewardVideoAd ''ad-r'' False)) ''r1'' None
            ready_state) = Returned None
   \<and> fst (triggerRewarded (failing_world AdMob_showRewardVideoAd) ''r1'' None ready_state)
        = Returned None"
proof -
  note inv = module_invariant_ready
  have web: "isNative web_world ready_state = (Returned False, host_asked ready_state)"
    by (rule isNative_web)
  have coop: "isNative cooperative_world ready_state = (Returned True, host_asked ready_state)"
    by (rule isNative_cooperative)
  have bad1: "isNative (failing_world (AdMob_prepareRewardVideoAd ''ad-r'' False)) ready_state
      = (Returned True, host_asked ready_state)"
    by (rule isNative_failing) simp_all
  have bad2: "isNative (failing_world AdMob_showRewardVideoAd) ready_state
      = (Returned True, host_asked ready_state)"
    by (rule isNative_failing) simp_all
  have slot: "getSlot (registry ready_state) ''r1'' = JConfig (RewardedSlotConfig ''ad-r'' Absent)"
    by (simp add: ready_state_simps demo_registry_slots)
  have a: "triggerRewarded cooperative_world ''r1'' None initial_state
      = (Returned None, initial_state)"
    using triggerRewarded_spec [OF module_invariant_initial, of cooperative_world "''r1''" None]
    by (simp add: initial_state_def)
  have b: "triggerRewarded web_world ''r1'' None ready_state
      = (Returned None, host_asked ready_state)"
    using triggerRewarded_spec [OF inv, of web_world "''r1''" None "host_asked ready_state"] web
    by (simp add: ready_state_simps)
  have c: "triggerRewarded cooperative_world ''missing'' None ready_state
      = (Returned None, host_asked ready_state)"
    using triggerRewarded_spec
      [OF inv, of cooperative_world "''missing''" None "host_asked ready_state"] coop
    by (simp add: ready_state_simps demo_registry_slots)
  have d: "triggerRewarded cooperative_world ''r1'' None ready_state
        = (Returned (Some \<lparr>amount = 10, type = ''coins''\<rparr>),
           ready_state\<lparr>trace := [ImportCapacitorCore, Capacitor_isNativePlatform,
              AdMob_prepareRewardVideoAd ''ad-r'' False, AdMob_showRewardVideoAd]\<rparr>)"
    using triggerRewarded_spec
      [OF inv, where w = cooperative_world and slotId = "''r1''" and g = None
        and ?st1.0 = "host_asked ready_state" and a = "''ad-r''" and t = Absent
        and ?p1.0 = native_payload and ?p2.0 = native_payload] coop slot
    by (simp add: ready_state_simps cooperative_world_def native_payload_def host_asked_def
        resolveTesting_def)
  have e: "fst (triggerRewarded (failing_world (AdMob_prepareRewardVideoAd ''ad-r'' False))
      ''r1'' None ready_state) = Returned None"
    using triggerRewarded_spec
      [OF inv, where w = "failing_world (AdMob_prepareRewardVideoAd ''ad-r'' False)"
        and slotId = "''r1''" and g = None and ?st1.0 = "host_asked ready_state"
        and a = "''ad-r''" and t = Absent and e = "''failed''"] bad1 slot
    by (simp add: ready_state_simps failing_world_def resolveTesting_def)
  have f: "fst (triggerRewarded (failing_world AdMob_showRewardVideoAd) ''r1'' None ready_state)
      = Returned None"
    using triggerRewarded_spec
      [OF inv, where w = "failing_world AdMob_showRewardVideoAd"
        and slotId = "''r1''" and g = None and ?st1.0 = "host_asked ready_state"
        and a = "''ad-r''" and t = Absent and ?p1.0 = native_payload and e = "''failed''"]
      bad2 slot
    by (simp add: ready_state_simps failing_world_def resolveTesting_def)
  from inv module_invariant_initial web coop slot a b c d e f show ?thesis
    by (simp add: ready_state_simps initial_state_def)
qed

section \<open>show on a rewarded slot\<close>

text \<open>
  Claim C10. For a slot whose registered configuration has type rewarded, once the guard
  of \<open>show\<close> has passed, \<open>show(slotId, globalTesting)\<close> is \<open>triggerRewarded(slotId,
  globalTesting)\<close> run from there, with the same requests and the same final state, and
  with the reward it returns dropped: \<open>show\<close> returns no value.
\<close>

theorem show_rewarded_discards:
  assumes "isInitialized st" and "\<not> adsRemoved st"
    and "isNative w st = (Returned True, st1)"
    and "getSlot (registry st) slotId = JConfig (RewardedSlotConfig a t)"
  shows "show_slot w slotId g st =
     (case triggerRewarded w slotId g st1 of
        (Returned granted, st2) \<Rightarrow> (Returned (), st2)
      | (Raised e, st2) \<Rightarrow> (Raised e, st2)
      | (Suspended, st2) \<Rightarrow> (Suspended, st2))"
proof -
  have reg: "registry st1 = registry st"
    by (simp add: isNative_Returned [OF assms(3)])
  from assms(4) have "hasSlot (registry st) slotId" by (rule getSlot_config_hasSlot)
  with gate_closed_host [OF assms(1-3)] reg assms(4) show ?thesis
    by (simp add: show_slot_def and_then_def reading_def returning_def
        split: prod.split completion.split)
qed

theorem show_rewarded_discards_witness:
  "isInitialized ready_state \<and> \<not> adsRemoved ready_state
   \<and> isNative cooperative_world ready_state = (Returned True, host_asked ready_state)
   \<and> getSlot (registry ready_state) ''r1'' = JConfig (RewardedSlotConfig ''ad-r'' Absent)
   \<and> triggerRewarded cooperative_world ''r1'' None (host_asked ready_state)
        = (Returned (Some \<lparr>amount = 10, type = ''coins''\<rparr>),
           ready_state\<lparr>trace := [ImportCapacitorCore, Capacitor_isNativePlatform,
              ImportCapacitorCore, Capacitor_isNativePlatform,
              AdMob_prepareRewardVideoAd ''ad-r'' False, AdMob_showRewardVideoAd]\<rparr>)
   \<and> show_slot cooperative_world ''r1'' None ready_state
        = (Returned (),
           ready_state\<lparr>trace := [ImportCapacitorCore, Capacitor_isNativePlatform,
              ImportCapacitorCore, Capacitor_isNativePlatform,
              AdMob_prepareRewardVideoAd ''ad-r'' False, AdMob_showRewardVideoAd]\<rparr>)"
proof -
  have coop: "isNative cooperative_world ready_state = (Returned True, host_asked ready_state)"
    by (rule isNative_cooperative)
  have slot: "getSlot (registry ready_state) ''r1'' = JConfig (RewardedSlotConfig ''ad-r'' Absent)"
    by (simp add: ready_state_simps demo_registry_slots)
  have tr: "triggerRewarded cooperative_world ''r1'' None (host_asked ready_state)
        = (Returned (Some \<lparr>amount = 10, type = ''coins''\<rparr>),
           ready_state\<lparr>trace := [ImportCapacitorCore, Capacitor_isNativePlatform,
              ImportCapacitorCore, Capacitor_isNativePlatform,
              AdMob_prepareRewardVideoAd ''ad-r'' False, AdMob_showRewardVideoAd]\<rparr>)"
    by (simp add: triggerRewarded_granted [OF _ _ isNative_cooperative, where a = "''ad-r''"
          and t = Absent and ?p1.0 = native_payload and ?p2.0 = native_payload]
        host_asked_simps ready_state_simps demo_registry_slots cooperative_world_def
        native_payload_def host_asked_def resolveTesting_def)
  from show_rewarded_discards [OF _ _ coop slot, of None] tr coop slot show ?thesis
    by (simp add: ready_state_simps)
qed


section \<open>show on a banner slot\<close>

lemma show_slot_banner:
  assumes "isInitialized st" and "\<not> adsRemoved st"
    and "isNative w st = (Returned True, st1)"
    and "getSlot (registry st) slotId = JConfig (BannerSlotConfig a p s m t)"
  shows "show_slot w slotId g st = show_banner w slotId (BannerSlotConfig a p s m t) g st1"
proof -
  have reg: "registry st1 = registry st"
    by (simp add: isNative_Returned [OF assms(3)])
  from assms(4) have "hasSlot (registry st) slotId" by (rule getSlot_config_hasSlot)
  with gate_closed_host [OF assms(1-3)] reg assms(4) show ?thesis
    by (simp add: show_slot_def and_then_def reading_def returning_def)
qed

text \<open>
  A banner slot \<open>T\<close> with a non-empty id is visible and another slot \<open>S\<close> is shown: the hide
  request goes out first; the show request follows only when the hide request has
  resolved, and then \<open>S\<close> is the current slot. When the hide request is rejected no show
  request goes out and \<open>T\<close> stays the current slot.
\<close>

lemma show_banner_replaces:
  assumes "isInitialized st" and "\<not> adsRemoved st"
    and "isNative w st = (Returned True, st1)"
    and "getSlot (registry st) S = JConfig (BannerSlotConfig a p s m t)"
    and "currentBannerSlot st = Some T" and "T \<noteq> S" and "T \<noteq> []"
    and "loadAdMob w st1 = (Returned (), st2)"
  shows
    "w (trace st2 @ [AdMob_hideBanner]) = Resolves p1 \<Longrightarrow>
     w (trace st2 @ [AdMob_hideBanner,
          AdMob_showBanner a
            (toBannerAdSize (case s of Present x \<Rightarrow> x | _ \<Rightarrow> adaptive))
            (toBannerAdPosition (case p of Present x \<Rightarrow> x | _ \<Rightarrow> bottom_position))
            (case m of Present x \<Rightarrow> x | _ \<Rightarrow> 0)
            (resolveTesting (BannerSlotConfig a p s m t) g)]) = Resolves p2 \<Longrightarrow>
     show_slot w S g st =
       (Returned (),
        st2\<lparr>trace := trace st2 @ [AdMob_hideBanner,
          AdMob_showBanner a
            (toBannerAdSize (case s of Present x \<Rightarrow> x | _ \<Rightarrow> adaptive))
            (toBannerAdPosition (case p of Present x \<Rightarrow> x | _ \<Rightarrow> bottom_position))
            (case m of Present x \<Rightarrow> x | _ \<Rightarrow> 0)
            (resolveTesting (BannerSlotConfig a p s m t) g)],
            currentBannerSlot := Some S\<rparr>)"
    and
    "w (trace st2 @ [AdMob_hideBanner]) = RejectsWith e \<or>
     w (trace st2 @ [AdMob_hideBanner]) = ThrowsWith e \<Longrightarrow>
     show_slot w S g st =
       (Returned (),
        st2\<lparr>trace := trace st2 @ [AdMob_hideBanner],
            console := console st2 @
              [Console_error [''[capacitor-ad-slots] Failed to show banner '' @ S @ '':'', e]]\<rparr>)
     \<and> currentBannerSlot st2 = Some T"
proof -
  have cur: "currentBannerSlot st2 = Some T"
    using hide_current_kept [OF assms(3,8)] assms(5) by simp
  {
    assume "w (trace st2 @ [AdMob_hideBanner]) = Resolves p1"
      and "w (trace st2 @ [AdMob_hideBanner,
          AdMob_showBanner a
            (toBannerAdSize (case s of Present x \<Rightarrow> x | _ \<Rightarrow> adaptive))
            (toBannerAdPosition (case p of Present x \<Rightarrow> x | _ \<Rightarrow> bottom_position))
            (case m of Present x \<Rightarrow> x | _ \<Rightarrow> 0)
            (resolveTesting (BannerSlotConfig a p s m t) g)]) = Resolves p2"
    with cur assms(6,7,8) show "show_slot w S g st =
       (Returned (),
        st2\<lparr>trace := trace st2 @ [AdMob_hideBanner,
          AdMob_showBanner a
            (toBannerAdSize (case s of Present x \<Rightarrow> x | _ \<Rightarrow> adaptive))
            (toBannerAdPosition (case p of Present x \<Rightarrow> x | _ \<Rightarrow> bottom_position))
            (case m of Present x \<Rightarrow> x | _ \<Rightarrow> 0)
            (resolveTesting (BannerSlotConfig a p s m t) g)],
            currentBannerSlot := Some S\<rparr>)"
      by (simp add: show_slot_banner [OF assms(1-4)] show_banner_def and_then_def
          try_catch_def reading_def awaited_def update_def returning_def truthy_def)
  }
  {
    assume "w (trace st2 @ [AdMob_hideBanner]) = RejectsWith e \<or>
      w (trace st2 @ [AdMob_hideBanner]) = ThrowsWith e"
    with cur assms(6,7,8) show "show_slot w S g st =
       (Returned (),
        st2\<lparr>trace := trace st2 @ [AdMob_hideBanner],
            console := console st2 @
              [Console_error [''[capacitor-ad-slots] Failed to show banner '' @ S @ '':'', e]]\<rparr>)
     \<and> currentBannerSlot st2 = Some T"
      by (auto simp add: show_slot_banner [OF assms(1-4)] show_banner_def and_then_def
          try_catch_def reading_def awaited_def update_def returning_def truthy_def
          console_log_def)
  }
qed

text \<open>The banner slot with the empty id is shown, from \<open>ready_state\<close>.\<close>

lemma show_empty_id:
  "show_slot cooperative_world [] None ready_state =
     (Returned (),
      ready_state\<lparr>trace := [ImportCapacitorCore, Capacitor_isNativePlatform,
           AdMob_showBanner ''ad-0'' ADAPTIVE_BANNER BOTTOM_CENTER 0 False],
         currentBannerSlot := Some []\<rparr>)"
  by (simp add: show_slot_banner [OF _ _ isNative_cooperative, where a = "''ad-0''"
        and p = Absent and s = Absent and m = Absent and t = Absent]
      ready_state_simps demo_registry_slots show_banner_def and_then_def try_catch_def
      reading_def awaited_def update_def returning_def truthy_def loadAdMob_def
      host_asked_def cooperative_world_def toBannerAdSize_def toBannerAdPosition_def
      resolveTesting_def)

text \<open>
  The slot \<open>b1\<close> says \<open>isTesting: true\<close> and the caller passes \<open>globalTesting = false\<close>: the
  show request carries \<open>false\<close>.
\<close>

lemma show_call_site_flag_wins:
  "show_slot cooperative_world ''b1'' (Some False) ready_state =
     (Returned (),
      ready_state\<lparr>trace := [ImportCapacitorCore, Capacitor_isNativePlatform,
           AdMob_showBanner ''ad-1'' ADAPTIVE_BANNER BOTTOM_CENTER 0 False],
         currentBannerSlot := Some ''b1''\<rparr>)"
  by (simp add: show_slot_banner [OF _ _ isNative_cooperative, where a = "''ad-1''"
        and p = Absent and s = Absent and m = Absent and t = "Present True"]
      ready_state_simps demo_registry_slots show_banner_def and_then_def try_catch_def
      reading_def awaited_def update_def returning_def truthy_def loadAdMob_def
      host_asked_def cooperative_world_def toBannerAdSize_def toBannerAdPosition_def
      resolveTesting_def)

text \<open>
  Claim C3. While another banner slot \<open>T\<close> is visible, \<open>show(S)\<close> is to send the hide request
  before the show request. With \<open>T\<close> the slot whose id is the empty string this does not
  happen: after \<open>show("")\<close> the current slot is \<open>""\<close>, and \<open>show("b2")\<close> then sends its show
  request with no hide request before it. The test \<open>currentBannerSlot.value && ...\<close> takes
  the empty string for no slot.
\<close>

theorem show_after_empty_id_sends_no_hide:
  "currentBannerSlot (snd (show_slot cooperative_world [] None ready_state)) = Some []
   \<and> show_slot cooperative_world ''b2'' None
       (snd (show_slot cooperative_world [] None ready_state)) =
     (Returned (),
      ready_state\<lparr>trace := [ImportCapacitorCore, Capacitor_isNativePlatform,
           AdMob_showBanner ''ad-0'' ADAPTIVE_BANNER BOTTOM_CENTER 0 False,
           ImportCapacitorCore, Capacitor_isNativePlatform,
           AdMob_showBanner ''ad-2'' SMART_BANNER TOP_CENTER 4 False],
         currentBannerSlot := Some ''b2''\<rparr>)"
  by (simp add: show_empty_id
      show_slot_banner [OF _ _ isNative_cooperative, where a = "''ad-2''"
        and p = "Present top_position" and s = "Present smart" and m = "Present 4" and t = Absent]
      ready_state_simps demo_registry_slots show_banner_def and_then_def try_catch_def
      reading_def awaited_def update_def returning_def truthy_def loadAdMob_def
      host_asked_def cooperative_world_def toBannerAdSize_def toBannerAdPosition_def
      resolveTesting_def)

section \<open>setAdsRemoved\<close>

lemma setAdsRemoved_flag: "adsRemoved (setAdsRemoved removed st) = removed"
  by (simp add: setAdsRemoved_def Let_def split: option.splits)

text \<open>
  With a visible banner slot whose id is not empty, \<open>setAdsRemoved(true)\<close> starts \<open>hide\<close> for
  it, and when the hide request of that call resolves, no banner slot is current.
\<close>

lemma setAdsRemoved_starts_hide:
  "currentBannerSlot st = Some S \<Longrightarrow> S \<noteq> [] \<Longrightarrow>
     setAdsRemoved True st = st\<lparr>adsRemoved := True, detached := detached st @ [Detached_hide S]\<rparr>"
  by (simp add: setAdsRemoved_def truthy_def)

lemma setAdsRemoved_then_hide:
  assumes "currentBannerSlot st = Some S" and "S \<noteq> []"
    and "isNative w (setAdsRemoved True st) = (Returned True, st1)"
    and "loadAdMob w st1 = (Returned (), st2)"
    and "w (trace st2 @ [AdMob_hideBanner]) = Resolves p"
  shows "last (detached (setAdsRemoved True st)) = Detached_hide S"
    and "currentBannerSlot (snd (run_task w (Detached_hide S) (setAdsRemoved True st))) = None"
proof -
  show "last (detached (setAdsRemoved True st)) = Detached_hide S"
    by (simp add: setAdsRemoved_starts_hide [OF assms(1,2)])
  have "currentBannerSlot (setAdsRemoved True st) = Some S"
    by (simp add: setAdsRemoved_starts_hide [OF assms(1,2)] assms(1))
  from hide_resolved [OF assms(3) this assms(4,5)]
  show "currentBannerSlot (snd (run_task w (Detached_hide S) (setAdsRemoved True st))) = None"
    by simp
qed

text \<open>
  Claim C5. \<open>setAdsRemoved(true)\<close> is to start \<open>hide\<close> for the visible banner slot. With the
  slot whose id is the empty string visible it sets the flag and starts nothing: the
  test \<open>removed && currentBannerSlot.value\<close> takes the empty string for no slot, and that
  slot stays the current one.
\<close>

theorem setAdsRemoved_empty_id_starts_no_hide:
  "currentBannerSlot (snd (show_slot cooperative_world [] None ready_state)) = Some []
   \<and> setAdsRemoved True (snd (show_slot cooperative_world [] None ready_state)) =
       ready_state\<lparr>adsRemoved := True,
         trace := [ImportCapacitorCore, Capacitor_isNativePlatform,
           AdMob_showBanner ''ad-0'' ADAPTIVE_BANNER BOTTOM_CENTER 0 False],
         currentBannerSlot := Some []\<rparr>
   \<and> detached (setAdsRemoved True (snd (show_slot cooperative_world [] None ready_state))) = []"
  by (simp add: show_empty_id setAdsRemoved_def truthy_def ready_state_simps)

section \<open>The four combinations of the flags\<close>

text \<open>
  Each combination of \<open>isInitialized\<close> and \<open>adsRemoved\<close> is reached from the initial state,
  and \<open>shouldShowAds()\<close> is true in one of them only.
\<close>

lemma flags_reachable:
  "shouldShowAds initial_state = (False, initial_state)"
  "fst (shouldShowAds (setAdsRemoved True initial_state)) = False"
  "fst (shouldShowAds
     (snd (initialize cooperative_world default_options initial_state))) = True"
  "fst (shouldShowAds (setAdsRemoved True
     (snd (initialize cooperative_world default_options initial_state)))) = False"
  by (simp_all add: shouldShowAds_def setAdsRemoved_def initialize_def and_then_def
      try_catch_def isNative_def awaited_def called_def cooperative_world_def consent_flow_def
      update_def default_options_def initial_state_def returning_def loadAdMob_def
      reading_def native_payload_def)

section \<open>What a failed request leaves behind\<close>

lemma answered_append:
  "answered w tr (a @ b) = (answered w tr a \<and> answered w (tr @ a) b)"
  by (induction a arbitrary: tr) simp_all

lemma stable_flags: "stable (\<lambda>s. flags s = f0)"
  by (simp add: stable_def flags_def)

lemma calmD:
  assumes "calm m" and "m st = (r, st')"
  shows "flags st' = flags st" and "\<exists>ext. trace st' = trace st @ ext"
  using assms(1) [unfolded calm_def, rule_format, OF assms(2)] by simp_all

lemma tidyD:
  assumes "tidy w m" and "m st = (r, st')"
  shows "flags st' = flags st"
    and "\<exists>ext. trace st' = trace st @ ext \<and> (returned r \<longrightarrow> answered w (trace st) ext)"
  using assms(1) [unfolded tidy_def, rule_format, OF assms(2)] by simp_all

lemma harmlessD:
  assumes "harmless w m" and "m st = (r, st')"
  shows "flags st' = flags st"
    and "\<exists>ext. trace st' = trace st @ ext \<and> answered w (trace st) ext"
  using assms(1) [unfolded harmless_def, rule_format, OF assms(2)] by simp_all

lemma honestD:
  assumes "honest w m" and "m st = (r, st')"
  shows "\<exists>ext. trace st' = trace st @ ext \<and>
      (flags st' = flags st \<or> (returned r \<and> answered w (trace st) ext))"
  using assms(1) [unfolded honest_def, rule_format, OF assms(2)] .

lemma grantingD:
  assumes "granting w m" and "m st = (Returned (Some v), st')"
  shows "\<exists>ext. trace st' = trace st @ ext \<and> answered w (trace st) ext"
  using assms(1) [unfolded granting_def, rule_format, OF assms(2)] .

lemma calm_stable:
  assumes "\<And>I. stable I \<Longrightarrow> keeps I m"
  shows "calm m"
  unfolding calm_def
proof (intro allI impI conjI)
  fix st r st'
  assume run: "m st = (r, st')"
  have "keeps (\<lambda>s. flags s = flags st) m" by (rule assms) (rule stable_flags)
  from this [unfolded keeps_def, rule_format, OF _ run]
  show "flags st' = flags st" by simp
  have "keeps (\<lambda>s. \<exists>ext. trace s = trace st @ ext) m" by (rule assms) (rule stable_prefix)
  from this [unfolded keeps_def, rule_format, OF _ run]
  show "\<exists>ext. trace st' = trace st @ ext" by simp
qed

lemma calm_returning: "calm (returning x)"
  by (simp add: calm_def returning_def)

lemma calm_console_log: "calm (console_log l)"
  by (rule calm_stable) (rule keeps_console_log)

lemma calm_raise: "calm (\<lambda>st. (Raised e, st))"
  by (simp add: calm_def)

lemma calm_log_then_return: "calm (and_then (console_log l) (\<lambda>logged. returning x))"
  by (rule calm_stable) (intro keeps_rules)

lemma calm_triggerRewarded: "calm (triggerRewarded w slotId g)"
  by (rule calm_stable) (rule keeps_triggerRewarded)

lemma calm_triggerInterstitial: "calm (triggerInterstitial w slotId g)"
  by (rule calm_stable) (rule keeps_triggerInterstitial)

lemma calm_trigger: "calm (trigger w slotId g)"
  by (rule calm_stable) (rule keeps_trigger)

lemma calm_prepareInterstitialSlot: "calm (prepareInterstitialSlot w slotId g)"
  by (rule calm_stable) (rule keeps_prepareInterstitialSlot)

lemma calm_discard: "calm (and_then (triggerRewarded w slotId g) (\<lambda>r. returning ()))"
  by (rule calm_stable) (intro keeps_rules keeps_triggerRewarded)

subsection \<open>Actions that return only when nothing failed\<close>

lemma tidy_returning: "tidy w (returning x)"
  by (simp add: tidy_def returning_def)

lemma tidy_reading:
  assumes "\<And>x. tidy w (f x)"
  shows "tidy w (reading g f)"
  unfolding tidy_def
proof (intro allI impI)
  fix st r st'
  assume "reading g f st = (r, st')"
  then have "f (g st) st = (r, st')" by (simp add: reading_def)
  with assms [of "g st"] show "flags st' = flags st \<and>
      (\<exists>ext. trace st' = trace st @ ext \<and> (returned r \<longrightarrow> answered w (trace st) ext))"
    by (simp add: tidyD)
qed

lemma tidy_if: "tidy w a \<Longrightarrow> tidy w b \<Longrightarrow> tidy w (if c then a else b)"
  by simp

lemma tidy_update:
  assumes "\<And>st. flags (f st) = flags st" and "\<And>st. trace (f st) = trace st"
  shows "tidy w (update f)"
  using assms by (simp add: tidy_def update_def)

lemma tidy_awaited: "tidy w (awaited w c)"
  unfolding tidy_def
proof (intro allI impI)
  fix st r st'
  assume run: "awaited w c st = (r, st')"
  then have st': "st' = st\<lparr>trace := trace st @ [c]\<rparr>"
    by (cases "w (trace st @ [c])") (simp_all add: awaited_def)
  have "returned r \<longrightarrow> answered w (trace st) [c]"
    using run by (cases "w (trace st @ [c])") (auto simp: awaited_def failed_def)
  with st' show "flags st' = flags st \<and>
      (\<exists>ext. trace st' = trace st @ ext \<and> (returned r \<longrightarrow> answered w (trace st) ext))"
    by (simp add: flags_def)
qed

lemma tidy_called:
  assumes "listener_call c"
  shows "tidy w (called w c)"
  unfolding tidy_def
proof (intro allI impI)
  fix st r st'
  assume run: "called w c st = (r, st')"
  then have st': "st' = st\<lparr>trace := trace st @ [c]\<rparr>"
    by (cases "w (trace st @ [c])") (simp_all add: called_def)
  have "returned r \<longrightarrow> answered w (trace st) [c]"
    using run assms by (cases "w (trace st @ [c])") (auto simp: called_def failed_def)
  with st' show "flags st' = flags st \<and>
      (\<exists>ext. trace st' = trace st @ ext \<and> (returned r \<longrightarrow> answered w (trace st) ext))"
    by (simp add: flags_def)
qed

lemma tidy_and_then:
  assumes "tidy w m" and "\<And>x. tidy w (f x)"
  shows "tidy w (and_then m f)"
  unfolding tidy_def
proof (intro allI impI)
  fix st r st'
  assume run: "and_then m f st = (r, st')"
  obtain r1 st1 where m: "m st = (r1, st1)" by (cases "m st")
  from tidyD [OF assms(1) m] obtain ext1 where
    fl1: "flags st1 = flags st" and t1: "trace st1 = trace st @ ext1"
    and a1: "returned r1 \<longrightarrow> answered w (trace st) ext1"
    by auto
  show "flags st' = flags st \<and>
      (\<exists>ext. trace st' = trace st @ ext \<and> (returned r \<longrightarrow> answered w (trace st) ext))"
  proof (cases r1)
    case (Returned x)
    with run m have f: "f x st1 = (r, st')" by (simp add: and_then_def)
    from tidyD [OF assms(2) f] obtain ext2 where
      fl2: "flags st' = flags st1" and t2: "trace st' = trace st1 @ ext2"
      and a2: "returned r \<longrightarrow> answered w (trace st1) ext2"
      by auto
    from t1 t2 have t: "trace st' = trace st @ (ext1 @ ext2)" by simp
    from a1 a2 Returned t1
    have "returned r \<longrightarrow> answered w (trace st) (ext1 @ ext2)"
      by (simp add: answered_append)
    with t have "\<exists>ext. trace st' = trace st @ ext \<and> (returned r \<longrightarrow> answered w (trace st) ext)"
      by (intro exI [of _ "ext1 @ ext2"] conjI)
    with fl1 fl2 show ?thesis by simp
  next
    case (Raised e)
    with run m have "r = Raised e" and "st' = st1" by (simp_all add: and_then_def)
    with fl1 t1 show ?thesis by simp
  next
    case Suspended
    with run m have "r = Suspended" and "st' = st1" by (simp_all add: and_then_def)
    with fl1 t1 show ?thesis by simp
  qed
qed

lemmas tidy_rules = tidy_returning tidy_reading tidy_if tidy_awaited tidy_and_then

lemma tidy_isNative: "tidy w (isNative w)"
  unfolding isNative_def by (intro tidy_rules)

lemma tidy_loadAdMob: "tidy w (loadAdMob w)"
  unfolding loadAdMob_def by (intro tidy_rules tidy_update) (simp_all add: flags_def)

lemma tidy_gate_closed: "tidy w (gate_closed w)"
  unfolding gate_closed_def by (intro tidy_rules tidy_isNative)

subsection \<open>The consent step\<close>

lemma harmless_returning: "harmless w (returning x)"
  by (simp add: harmless_def returning_def)

lemma harmless_console_log: "harmless w (console_log l)"
  by (simp add: harmless_def console_log_def update_def flags_def)

lemma harmless_if: "harmless w a \<Longrightarrow> harmless w b \<Longrightarrow> harmless w (if c then a else b)"
  by simp

lemma harmless_awaited:
  assumes "consent_call c"
  shows "harmless w (awaited w c)"
  unfolding harmless_def
proof (intro allI impI)
  fix st r st'
  assume run: "awaited w c st = (r, st')"
  then have st': "st' = st\<lparr>trace := trace st @ [c]\<rparr>"
    by (cases "w (trace st @ [c])") (simp_all add: awaited_def)
  have "answered w (trace st) [c]"
    using assms by (cases "w (trace st @ [c])") (simp_all add: failed_def)
  with st' show "flags st' = flags st \<and>
      (\<exists>ext. trace st' = trace st @ ext \<and> answered w (trace st) ext)"
    by (simp add: flags_def)
qed

lemma harmless_sequence:
  assumes "harmless w m" and "harmless w k"
    and "m st = (r1, st1)" and "k st1 = (r, st')"
  shows "flags st' = flags st \<and> (\<exists>ext. trace st' = trace st @ ext \<and> answered w (trace st) ext)"
proof -
  from harmlessD [OF assms(1,3)] obtain ext1 where
    fl1: "flags st1 = flags st" and t1: "trace st1 = trace st @ ext1"
    and a1: "answered w (trace st) ext1"
    by auto
  from harmlessD [OF assms(2,4)] obtain ext2 where
    fl2: "flags st' = flags st1" and t2: "trace st' = trace st1 @ ext2"
    and a2: "answered w (trace st1) ext2"
    by auto
  from t1 t2 have t: "trace st' = trace st @ (ext1 @ ext2)" by simp
  from a1 a2 t1 have "answered w (trace st) (ext1 @ ext2)"
    by (simp add: answered_append)
  with t have "\<exists>ext. trace st' = trace st @ ext \<and> answered w (trace st) ext"
    by (intro exI [of _ "ext1 @ ext2"] conjI)
  with fl1 fl2 show ?thesis by simp
qed

lemma harmless_and_then:
  assumes "harmless w m" and "\<And>x. harmless w (f x)"
  shows "harmless w (and_then m f)"
  unfolding harmless_def
proof (intro allI impI)
  fix st r st'
  assume run: "and_then m f st = (r, st')"
  obtain r1 st1 where m: "m st = (r1, st1)" by (cases "m st")
  note m_facts = harmlessD [OF assms(1) m]
  show "flags st' = flags st \<and> (\<exists>ext. trace st' = trace st @ ext \<and> answered w (trace st) ext)"
  proof (cases r1)
    case (Returned x)
    with run m have "f x st1 = (r, st')" by (simp add: and_then_def)
    with assms(1) assms(2) [of x] m show ?thesis by (rule harmless_sequence)
  next
    case (Raised e)
    with run m have "st' = st1" by (simp add: and_then_def)
    with m_facts show ?thesis by simp
  next
    case Suspended
    with run m have "st' = st1" by (simp add: and_then_def)
    with m_facts show ?thesis by simp
  qed
qed

lemma harmless_try_catch:
  assumes "harmless w m" and "\<And>e. harmless w (h e)"
  shows "harmless w (try_catch m h)"
  unfolding harmless_def
proof (intro allI impI)
  fix st r st'
  assume run: "try_catch m h st = (r, st')"
  obtain r1 st1 where m: "m st = (r1, st1)" by (cases "m st")
  note m_facts = harmlessD [OF assms(1) m]
  show "flags st' = flags st \<and> (\<exists>ext. trace st' = trace st @ ext \<and> answered w (trace st) ext)"
  proof (cases r1)
    case (Returned x)
    with run m have "st' = st1" by (simp add: try_catch_def)
    with m_facts show ?thesis by simp
  next
    case (Raised e)
    with run m have "h e st1 = (r, st')" by (simp add: try_catch_def)
    with assms(1) assms(2) [of e] m show ?thesis by (rule harmless_sequence)
  next
    case Suspended
    with run m have "st' = st1" by (simp add: try_catch_def)
    with m_facts show ?thesis by simp
  qed
qed

lemma tidy_harmless:
  assumes "harmless w m"
  shows "tidy w m"
  unfolding tidy_def
proof (intro allI impI)
  fix st r st'
  assume run: "m st = (r, st')"
  from harmlessD [OF assms run] show "flags st' = flags st \<and>
      (\<exists>ext. trace st' = trace st @ ext \<and> (returned r \<longrightarrow> answered w (trace st) ext))"
    by auto
qed

lemma harmless_consent_flow: "harmless w (consent_flow w options)"
  unfolding consent_flow_def
  by (intro harmless_and_then harmless_if harmless_returning harmless_awaited) simp_all

lemma tidy_consent_step:
  "tidy w
     (try_catch (consent_flow w options)
        (\<lambda>msg. if c msg then console_log (l msg) else returning ()))"
  by (intro tidy_harmless harmless_try_catch harmless_consent_flow harmless_if
      harmless_console_log harmless_returning)

subsection \<open>Actions that change a flag only when nothing failed\<close>

lemma honest_calm:
  assumes "calm m"
  shows "honest w m"
  unfolding honest_def
proof (intro allI impI)
  fix st r st'
  assume run: "m st = (r, st')"
  from calmD [OF assms run] show "\<exists>ext. trace st' = trace st @ ext \<and>
      (flags st' = flags st \<or> (returned r \<and> answered w (trace st) ext))"
    by auto
qed

lemma honest_reading:
  assumes "\<And>x. honest w (f x)"
  shows "honest w (reading g f)"
  unfolding honest_def
proof (intro allI impI)
  fix st r st'
  assume "reading g f st = (r, st')"
  then have "f (g st) st = (r, st')" by (simp add: reading_def)
  with assms [of "g st"] show "\<exists>ext. trace st' = trace st @ ext \<and>
      (flags st' = flags st \<or> (returned r \<and> answered w (trace st) ext))"
    by (rule honestD)
qed

lemma honest_if: "honest w a \<Longrightarrow> honest w b \<Longrightarrow> honest w (if c then a else b)"
  by simp

lemma honest_update:
  assumes "\<And>st. trace (f st) = trace st"
  shows "honest w (update f)"
  using assms by (simp add: honest_def update_def)

lemma honest_and_then:
  assumes "tidy w m" and "\<And>x. honest w (f x)"
  shows "honest w (and_then m f)"
  unfolding honest_def
proof (intro allI impI)
  fix st r st'
  assume run: "and_then m f st = (r, st')"
  obtain r1 st1 where m: "m st = (r1, st1)" by (cases "m st")
  from tidyD [OF assms(1) m] obtain ext1 where
    fl1: "flags st1 = flags st" and t1: "trace st1 = trace st @ ext1"
    and a1: "returned r1 \<longrightarrow> answered w (trace st) ext1"
    by auto
  show "\<exists>ext. trace st' = trace st @ ext \<and>
      (flags st' = flags st \<or> (returned r \<and> answered w (trace st) ext))"
  proof (cases r1)
    case (Returned x)
    with run m have f: "f x st1 = (r, st')" by (simp add: and_then_def)
    from honestD [OF assms(2) f] obtain ext2 where t2: "trace st' = trace st1 @ ext2"
      and a2: "flags st' = flags st1 \<or> (returned r \<and> answered w (trace st1) ext2)"
      by auto
    from t1 t2 have t: "trace st' = trace st @ (ext1 @ ext2)" by simp
    from a1 a2 Returned t1 fl1
    have "flags st' = flags st \<or> (returned r \<and> answered w (trace st) (ext1 @ ext2))"
      by (auto simp add: answered_append)
    with t show ?thesis by (intro exI [of _ "ext1 @ ext2"] conjI)
  next
    case (Raised e)
    with run m have "st' = st1" by (simp add: and_then_def)
    with fl1 t1 show ?thesis by simp
  next
    case Suspended
    with run m have "st' = st1" by (simp add: and_then_def)
    with fl1 t1 show ?thesis by simp
  qed
qed

lemma honest_try_catch:
  assumes "honest w m" and "\<And>e. calm (h e)"
  shows "honest w (try_catch m h)"
  unfolding honest_def
proof (intro allI impI)
  fix st r st'
  assume run: "try_catch m h st = (r, st')"
  obtain r1 st1 where m: "m st = (r1, st1)" by (cases "m st")
  from honestD [OF assms(1) m] obtain ext1 where t1: "trace st1 = trace st @ ext1"
    and a1: "flags st1 = flags st \<or> (returned r1 \<and> answered w (trace st) ext1)"
    by auto
  show "\<exists>ext. trace st' = trace st @ ext \<and>
      (flags st' = flags st \<or> (returned r \<and> answered w (trace st) ext))"
  proof (cases r1)
    case (Returned x)
    with run m have "r = r1" and "st' = st1" by (simp_all add: try_catch_def)
    with t1 a1 show ?thesis by (intro exI [of _ ext1]) simp
  next
    case (Raised e)
    with run m have h: "h e st1 = (r, st')" by (simp add: try_catch_def)
    from calmD [OF assms(2) h] obtain ext2 where fl2: "flags st' = flags st1"
      and t2: "trace st' = trace st1 @ ext2"
      by auto
    from a1 Raised have "flags st1 = flags st" by simp
    with fl2 t1 t2 have "trace st' = trace st @ (ext1 @ ext2)" and "flags st' = flags st"
      by simp_all
    then show ?thesis by (intro exI [of _ "ext1 @ ext2"]) simp
  next
    case Suspended
    with run m have "st' = st1" by (simp add: try_catch_def)
    moreover from a1 Suspended have "flags st1 = flags st" by simp
    ultimately show ?thesis using t1 by simp
  qed
qed

lemmas honest_rules = honest_reading honest_if honest_and_then honest_try_catch

lemma honest_returning: "honest w (returning x)"
  by (rule honest_calm) (rule calm_returning)

lemma honest_console_log: "honest w (console_log l)"
  by (rule honest_calm) (rule calm_console_log)

lemma honest_raise: "honest w (\<lambda>st. (Raised e, st))"
  by (rule honest_calm) (rule calm_raise)

lemma honest_triggerInterstitial: "honest w (triggerInterstitial w slotId g)"
  by (rule honest_calm) (rule calm_triggerInterstitial)

lemma honest_discard: "honest w (and_then (triggerRewarded w slotId g) (\<lambda>r. returning ()))"
  by (rule honest_calm) (rule calm_discard)

lemma honest_hide: "honest w (hide w slotId)"
  unfolding hide_def
  by (intro honest_rules tidy_isNative tidy_loadAdMob tidy_awaited honest_update
      honest_returning calm_console_log) simp

lemma honest_remove_slot: "honest w (remove_slot w slotId)"
  unfolding remove_slot_def
  by (intro honest_rules tidy_isNative tidy_loadAdMob tidy_awaited honest_update
      honest_returning calm_console_log) simp

lemma honest_show_banner: "honest w (show_banner w slotId cfg g)"
  unfolding show_banner_def
  by (intro honest_rules tidy_rules tidy_loadAdMob honest_update calm_console_log) simp

lemma honest_show_slot: "honest w (show_slot w slotId g)"
  unfolding show_slot_def
  apply (intro honest_rules tidy_gate_closed honest_returning honest_console_log)
  subgoal for closed known slot
    apply (cases slot; simp add: honest_returning honest_raise)
    subgoal for cfg
      by (cases cfg;
          simp add: honest_show_banner honest_triggerInterstitial honest_discard)
    done
  done

lemma honest_initialize: "honest w (initialize w options)"
  unfolding initialize_def
  by (intro honest_rules tidy_isNative tidy_loadAdMob tidy_awaited tidy_consent_step
      tidy_called honest_update honest_returning calm_console_log) simp_all

lemma honest_run_op: "honest w (run_op w op)"
proof (cases op)
  case (Op_setAdsRemoved removed)
  have "trace (setAdsRemoved removed st) = trace st" for st
    by (simp add: setAdsRemoved_def Let_def split: option.splits)
  then have "honest w (update (setAdsRemoved removed))" by (rule honest_update)
  with Op_setAdsRemoved show ?thesis by simp
next
  case (Op_trigger slotId g)
  then show ?thesis by (simp add: honest_calm [OF calm_trigger])
next
  case (Op_prepareInterstitialSlot slotId g)
  then show ?thesis by (simp add: honest_calm [OF calm_prepareInterstitialSlot])
qed (simp_all add: honest_initialize honest_show_slot honest_hide honest_remove_slot
      honest_discard)

lemma run_op_failure_keeps_flags:
  assumes "run_op w op st = (r, st')" and "\<not> no_failure w st st'"
  shows "flags st' = flags st"
proof -
  from honestD [OF honest_run_op assms(1)] obtain ext where t: "trace st' = trace st @ ext"
    and a: "flags st' = flags st \<or> (returned r \<and> answered w (trace st) ext)"
    by auto
  from t have "no_failure w st st' = answered w (trace st) ext"
    by (simp add: no_failure_def)
  with a assms(2) show ?thesis by simp
qed

subsection \<open>A reward is returned only when nothing failed\<close>

lemma granting_returning: "granting w (returning x)"
  by (simp add: granting_def returning_def)

lemma granting_reading:
  assumes "\<And>x. granting w (f x)"
  shows "granting w (reading g f)"
  unfolding granting_def
proof (intro allI impI)
  fix st v st'
  assume "reading g f st = (Returned (Some v), st')"
  then have "f (g st) st = (Returned (Some v), st')" by (simp add: reading_def)
  with assms [of "g st"] show "\<exists>ext. trace st' = trace st @ ext \<and> answered w (trace st) ext"
    by (rule grantingD)
qed

lemma granting_if: "granting w a \<Longrightarrow> granting w b \<Longrightarrow> granting w (if c then a else b)"
  by simp

lemma granting_and_then:
  assumes "tidy w m" and "\<And>x. granting w (f x)"
  shows "granting w (and_then m f)"
  unfolding granting_def
proof (intro allI impI)
  fix st v st'
  assume run: "and_then m f st = (Returned (Some v), st')"
  obtain r1 st1 where m: "m st = (r1, st1)" by (cases "m st")
  from tidyD [OF assms(1) m] obtain ext1 where t1: "trace st1 = trace st @ ext1"
    and a1: "returned r1 \<longrightarrow> answered w (trace st) ext1"
    by auto
  show "\<exists>ext. trace st' = trace st @ ext \<and> answered w (trace st) ext"
  proof (cases r1)
    case (Returned x)
    with run m have f: "f x st1 = (Returned (Some v), st')" by (simp add: and_then_def)
    from grantingD [OF assms(2) f] obtain ext2 where t2: "trace st' = trace st1 @ ext2"
      and a2: "answered w (trace st1) ext2"
      by auto
    from t1 t2 have t: "trace st' = trace st @ (ext1 @ ext2)" by simp
    from a1 a2 Returned t1 have "answered w (trace st) (ext1 @ ext2)"
      by (simp add: answered_append)
    with t show ?thesis by (intro exI [of _ "ext1 @ ext2"] conjI)
  next
    case (Raised e)
    with run m show ?thesis by (simp add: and_then_def)
  next
    case Suspended
    with run m show ?thesis by (simp add: and_then_def)
  qed
qed

lemma granting_try_catch_null:
  assumes "granting w m"
  shows "granting w (try_catch m (\<lambda>e. and_then (console_log (l e)) (\<lambda>logged. returning None)))"
  unfolding granting_def
proof (intro allI impI)
  fix st v st'
  assume run: "try_catch m (\<lambda>e. and_then (console_log (l e)) (\<lambda>logged. returning None)) st
      = (Returned (Some v), st')"
  obtain r1 st1 where m: "m st = (r1, st1)" by (cases "m st")
  show "\<exists>ext. trace st' = trace st @ ext \<and> answered w (trace st) ext"
  proof (cases r1)
    case (Returned x)
    with run m have "m st = (Returned (Some v), st')" by (simp add: try_catch_def)
    with assms show ?thesis by (rule grantingD)
  next
    case (Raised e)
    with run m show ?thesis
      by (simp add: try_catch_def and_then_def console_log_def update_def returning_def)
  next
    case Suspended
    with run m show ?thesis by (simp add: try_catch_def)
  qed
qed

lemma granting_triggerRewarded: "granting w (triggerRewarded w slotId g)"
  unfolding triggerRewarded_def
  apply (intro granting_and_then granting_if granting_reading granting_returning
      tidy_gate_closed)
  subgoal for closed slot
    apply (cases slot; simp add: granting_returning)
    subgoal for cfg
      by (cases cfg; simp add: granting_returning;
          intro granting_and_then granting_try_catch_null granting_returning tidy_loadAdMob
            tidy_awaited)
    done
  done

lemma reward_means_no_failure:
  assumes "triggerRewarded w slotId g st = (Returned (Some v), st')"
  shows "no_failure w st st'"
proof -
  from grantingD [OF granting_triggerRewarded assms] obtain ext where
    "trace st' = trace st @ ext" and "answered w (trace st) ext"
    by auto
  then show ?thesis by (simp add: no_failure_def)
qed


subsection \<open>The public operations\<close>

text \<open>
  Claim C1, as amended. Whatever the outside world does: a public operation rejects only
  when the last request it sent was the import of \<open>@capacitor/core\<close>, the call of
  \<open>isNativePlatform\<close> or the import of the plugin, and that request was rejected or threw
  with the same error (for \<open>show\<close> and \<open>trigger\<close>: as long as the registry entry they read
  behind \<open>hasSlot\<close> is not a property whose value is \<open>undefined\<close>); so no rejection and no
  throw of a method of the plugin reaches the caller. When a request of the operation
  failed (a rejected or throwing request that it awaits, outside the consent step, or a
  throwing \<open>addListener\<close>), \<open>isInitialized\<close>, \<open>adsRemoved\<close> and \<open>currentBannerSlot\<close> are as
  they were before the call, and \<open>triggerRewarded\<close> returns \<open>null\<close>.
\<close>

theorem failures_contained:
  "(run_op w op st = (Raised e, st') \<and> reads_defined op st \<longrightarrow>
      (\<exists>pre c. trace st' = trace st @ pre @ [c] \<and> c \<in> set loading_calls \<and>
         (w (trace st') = RejectsWith e \<or> w (trace st') = ThrowsWith e)))
   \<and> (run_op w op st = (r, st') \<and> \<not> no_failure w st st' \<longrightarrow>
        isInitialized st' = isInitialized st \<and> adsRemoved st' = adsRemoved st \<and>
        currentBannerSlot st' = currentBannerSlot st)
   \<and> (triggerRewarded w slotId g st = (Returned granted, st') \<and> \<not> no_failure w st st' \<longrightarrow>
        granted = None)"
proof (intro conjI impI)
  assume "run_op w op st = (Raised e, st') \<and> reads_defined op st"
  then have "reads_defined op st" and "run_op w op st = (Raised e, st')" by simp_all
  then have "loading_failure w e st st'" by (rule run_op_rejects)
  then show "\<exists>pre c. trace st' = trace st @ pre @ [c] \<and> c \<in> set loading_calls \<and>
      (w (trace st') = RejectsWith e \<or> w (trace st') = ThrowsWith e)"
    by (simp add: loading_failure_def)
next
  assume "run_op w op st = (r, st') \<and> \<not> no_failure w st st'"
  then have "run_op w op st = (r, st')" and "\<not> no_failure w st st'" by simp_all
  then have "flags st' = flags st" by (rule run_op_failure_keeps_flags)
  then show "isInitialized st' = isInitialized st" and "adsRemoved st' = adsRemoved st"
    and "currentBannerSlot st' = currentBannerSlot st"
    by (simp_all add: flags_def)
next
  assume a: "triggerRewarded w slotId g st = (Returned granted, st') \<and> \<not> no_failure w st st'"
  show "granted = None"
  proof (cases granted)
    case None
    then show ?thesis .
  next
    case (Some v)
    with a have "triggerRewarded w slotId g st = (Returned (Some v), st')" by simp
    then have "no_failure w st st'" by (rule reward_means_no_failure)
    with a show ?thesis by simp
  qed
qed

text \<open>
  The claim as stated fails: when the import of the plugin is rejected, \<open>initialize()\<close>
  rejects. The call \<open>await loadAdMob()\<close> stands before the \<open>try\<close> block, in this and in every
  other operation.
\<close>

theorem initialize_rejects_counterexample:
  "fst (run_op (failing_world ImportAdMob) (Op_initialize default_options) initial_state)
     = Raised ''failed''"
  by (simp add: initialize_def and_then_def isNative_def awaited_def failing_world_def
      initial_state_def returning_def loadAdMob_def reading_def native_payload_def)

lemma initialize_import_rejected:
  "run_op (failing_world ImportAdMob) (Op_initialize default_options) initial_state
     = (Raised ''failed'',
        initial_state\<lparr>trace := [ImportCapacitorCore, Capacitor_isNativePlatform, ImportAdMob]\<rparr>)"
  by (simp add: initialize_def and_then_def isNative_def awaited_def failing_world_def
      initial_state_def returning_def loadAdMob_def reading_def native_payload_def)

lemma initialize_plugin_rejected:
  "run_op (failing_world (AdMob_initialize None False)) (Op_initialize default_options)
     initial_state
     = (Returned (),
        initial_state\<lparr>AdMob := True,
          trace := [ImportCapacitorCore, Capacitor_isNativePlatform, ImportAdMob,
            AdMob_initialize None False],
          console := [Console_error [''[capacitor-ad-slots] Initialize failed:'', ''failed'']]\<rparr>)"
  by (simp add: initialize_def and_then_def try_catch_def isNative_def awaited_def
      failing_world_def initial_state_def returning_def loadAdMob_def reading_def
      update_def console_log_def default_options_def native_payload_def)

lemma rewarded_show_rejected:
  "triggerRewarded (failing_world AdMob_showRewardVideoAd) ''r1'' None ready_state
     = (Returned None,
        ready_state\<lparr>trace := [ImportCapacitorCore, Capacitor_isNativePlatform,
            AdMob_prepareRewardVideoAd ''ad-r'' False, AdMob_showRewardVideoAd],
          console := [Console_error
            [''[capacitor-ad-slots] Failed to show rewarded r1:'', ''failed'']]\<rparr>)"
  by (simp add: triggerRewarded_open [OF _ _ isNative_failing] ready_state_simps
      demo_registry_slots host_asked_def loadAdMob_def reading_def and_then_def try_catch_def
      awaited_def failing_world_def returning_def console_log_def update_def
      resolveTesting_def)

theorem failures_contained_witness:
  "run_op (failing_world ImportAdMob) (Op_initialize default_options) initial_state
     = (Raised ''failed'',
        initial_state\<lparr>trace := [ImportCapacitorCore, Capacitor_isNativePlatform, ImportAdMob]\<rparr>)
   \<and> reads_defined (Op_initialize default_options) initial_state
   \<and> (\<exists>pre c. [ImportCapacitorCore, Capacitor_isNativePlatform, ImportAdMob]
          = trace initial_state @ pre @ [c] \<and> c \<in> set loading_calls \<and>
          (failing_world ImportAdMob [ImportCapacitorCore, Capacitor_isNativePlatform, ImportAdMob]
             = RejectsWith ''failed'' \<or>
           failing_world ImportAdMob [ImportCapacitorCore, Capacitor_isNativePlatform, ImportAdMob]
             = ThrowsWith ''failed''))
   \<and> \<not> no_failure (failing_world (AdMob_initialize None False)) initial_state
        (snd (run_op (failing_world (AdMob_initialize None False))
           (Op_initialize default_options) initial_state))
   \<and> fst (run_op (failing_world (AdMob_initialize None False))
        (Op_initialize default_options) initial_state) = Returned ()
   \<and> isInitialized (snd (run_op (failing_world (AdMob_initialize None False))
        (Op_initialize default_options) initial_state)) = False
   \<and> \<not> no_failure (failing_world AdMob_showRewardVideoAd) ready_state
        (snd (triggerRewarded (failing_world AdMob_showRewardVideoAd) ''r1'' None ready_state))
   \<and> fst (triggerRewarded (failing_world AdMob_showRewardVideoAd) ''r1'' None ready_state)
        = Returned None"
proof -
  note a = initialize_import_rejected
  have a': "reads_defined (Op_initialize default_options) initial_state"
    by (simp add: reads_defined_def)
  have t0: "trace initial_state = []" by (simp add: initial_state_def)
  note b = initialize_plugin_rejected
  have b': "\<not> no_failure (failing_world (AdMob_initialize None False)) initial_state
      (snd (run_op (failing_world (AdMob_initialize None False))
         (Op_initialize default_options) initial_state))"
    by (simp add: b [unfolded run_op.simps] no_failure_def failed_def failing_world_def t0)
  note c = rewarded_show_rejected
  have c': "\<not> no_failure (failing_world AdMob_showRewardVideoAd) ready_state
      (snd (triggerRewarded (failing_world AdMob_showRewardVideoAd) ''r1'' None ready_state))"
    by (simp add: c no_failure_def failed_def failing_world_def ready_state_simps)
  from failures_contained
    [of "failing_world ImportAdMob" "Op_initialize default_options" initial_state "''failed''"
      "initial_state\<lparr>trace := [ImportCapacitorCore, Capacitor_isNativePlatform, ImportAdMob]\<rparr>"]
    a a'
  have 1: "\<exists>pre c. [ImportCapacitorCore, Capacitor_isNativePlatform, ImportAdMob]
          = trace initial_state @ pre @ [c] \<and> c \<in> set loading_calls \<and>
          (failing_world ImportAdMob [ImportCapacitorCore, Capacitor_isNativePlatform, ImportAdMob]
             = RejectsWith ''failed'' \<or>
           failing_world ImportAdMob [ImportCapacitorCore, Capacitor_isNativePlatform, ImportAdMob]
             = ThrowsWith ''failed'')"
    by simp
  from failures_contained
    [where w = "failing_world (AdMob_initialize None False)"
      and op = "Op_initialize default_options" and st = initial_state
      and r = "Returned ()"
      and st' = "snd (run_op (failing_world (AdMob_initialize None False))
         (Op_initialize default_options) initial_state)"] b b'
  have 2: "isInitialized (snd (run_op (failing_world (AdMob_initialize None False))
        (Op_initialize default_options) initial_state)) = False"
    by (simp add: initial_state_def)
  from failures_contained
    [where w = "failing_world AdMob_showRewardVideoAd" and st = ready_state
      and slotId = "''r1''" and g = None
      and granted = "case fst (triggerRewarded (failing_world AdMob_showRewardVideoAd) ''r1''
          None ready_state) of Returned x \<Rightarrow> x | _ \<Rightarrow> None"
      and st' = "snd (triggerRewarded (failing_world AdMob_showRewardVideoAd) ''r1'' None
          ready_state)"] c c'
  have 3: "fst (triggerRewarded (failing_world AdMob_showRewardVideoAd) ''r1'' None ready_state)
        = Returned None"
    by simp
  from a a' 1 b b' 2 c' 3 show ?thesis by simp
qed

text \<open>
  What the amended claim leaves out. The slot \<open>__proto__\<close> is defined with a configuration
  whose \<open>isTesting\<close> is present and \<open>undefined\<close>: the configuration becomes the prototype of
  the registry, \<open>hasSlot("isTesting")\<close> is true and \<open>getSlot("isTesting")\<close> is \<open>undefined\<close>. Then
  \<open>show("isTesting")\<close> rejects with the TypeError of \<open>getSlot(slotId)!.type\<close>, which stands
  outside every \<open>try\<close>.
\<close>

lemma show_inherited_undefined_throws:
  "hasSlot (defineSlot ''__proto__''
       (BannerSlotConfig ''ad-p'' Absent Absent Absent Undefined) demo_registry) ''isTesting''
   \<and> getSlot (defineSlot ''__proto__''
       (BannerSlotConfig ''ad-p'' Absent Absent Absent Undefined) demo_registry) ''isTesting''
      = JUndefined
   \<and> fst (show_slot cooperative_world ''isTesting'' None
       (ready_state\<lparr>registry := defineSlot ''__proto__''
          (BannerSlotConfig ''ad-p'' Absent Absent Absent Undefined) demo_registry\<rparr>))
      = Raised ''TypeError''"
proof -
  have h: "hasSlot (defineSlot ''__proto__''
       (BannerSlotConfig ''ad-p'' Absent Absent Absent Undefined) demo_registry) ''isTesting''"
    by (simp add: hasSlot_def js_in_def defineSlot_def js_set_def inherited_property_def
        config_property_def optional_property_def)
  have g: "getSlot (defineSlot ''__proto__''
       (BannerSlotConfig ''ad-p'' Absent Absent Absent Undefined) demo_registry) ''isTesting''
      = JUndefined"
    by (simp add: getSlot_def js_get_def defineSlot_def js_set_def inherited_property_def
        config_property_def optional_property_def demo_registry_def defineSlots_def
        empty_registry_def)
  have gate: "gate_closed cooperative_world
      (ready_state\<lparr>registry := defineSlot ''__proto__''
          (BannerSlotConfig ''ad-p'' Absent Absent Absent Undefined) demo_registry\<rparr>)
      = (Returned False, host_asked (ready_state\<lparr>registry := defineSlot ''__proto__''
          (BannerSlotConfig ''ad-p'' Absent Absent Absent Undefined) demo_registry\<rparr>))"
    by (rule gate_closed_host [where n = True, simplified])
      (simp_all add: ready_state_simps isNative_cooperative)
  from h g gate show ?thesis
    by (simp add: show_slot_def and_then_def reading_def host_asked_simps)
qed


section \<open>The test flag on every path\<close>

lemma flagged_slot: "flagged slotId cfg v t0 st \<Longrightarrow> getSlot (registry st) slotId = JConfig cfg"
  by (simp add: flagged_def)

lemma flagged_request:
  assumes "request_flag c = None \<or> request_flag c = Some v" and "flagged slotId cfg v t0 st"
  shows "flagged slotId cfg v t0 (st\<lparr>trace := trace st @ [c]\<rparr>)"
proof -
  from assms(2) obtain ext where slot: "getSlot (registry st) slotId = JConfig cfg"
    and t: "trace st = t0 @ ext"
    and fl: "\<forall>c \<in> set ext. request_flag c = None \<or> request_flag c = Some v"
    unfolding flagged_def by auto
  from t have "trace st @ [c] = t0 @ (ext @ [c])" by simp
  moreover from fl assms(1)
  have "\<forall>c \<in> set (ext @ [c]). request_flag c = None \<or> request_flag c = Some v" by simp
  ultimately have "\<exists>ext'. trace st @ [c] = t0 @ ext' \<and>
      (\<forall>c \<in> set ext'. request_flag c = None \<or> request_flag c = Some v)"
    by (intro exI [of _ "ext @ [c]"] conjI)
  with slot show ?thesis by (simp add: flagged_def)
qed

lemma keeps_reading_inv:
  assumes "\<And>st. I st \<Longrightarrow> keeps I (f (g st))"
  shows "keeps I (reading g f)"
  unfolding keeps_def
proof (intro allI impI)
  fix st r st'
  assume I: "I st" and "reading g f st = (r, st')"
  then have run: "f (g st) st = (r, st')" by (simp add: reading_def)
  from assms [OF I, unfolded keeps_def, rule_format, OF I run] show "I st'" .
qed

lemma keeps_flagged_awaited:
  "request_flag c = None \<or> request_flag c = Some v \<Longrightarrow>
     keeps (flagged slotId cfg v t0) (awaited w c)"
  by (rule keeps_awaited) (rule flagged_request)

lemma keeps_flagged_update:
  assumes "\<And>st. registry (f st) = registry st" and "\<And>st. trace (f st) = trace st"
  shows "keeps (flagged slotId cfg v t0) (update f)"
  by (rule keeps_update) (simp add: flagged_def assms)

lemma keeps_flagged_console_log: "keeps (flagged slotId cfg v t0) (console_log l)"
  unfolding console_log_def by (rule keeps_flagged_update) simp_all

lemmas flagged_rules = keeps_returning keeps_and_then keeps_try_catch keeps_raise keeps_if

lemma keeps_flagged_isNative: "keeps (flagged slotId cfg v t0) (isNative w)"
  unfolding isNative_def by (intro flagged_rules keeps_flagged_awaited) simp_all

lemma keeps_flagged_loadAdMob: "keeps (flagged slotId cfg v t0) (loadAdMob w)"
  unfolding loadAdMob_def
  by (intro flagged_rules keeps_reading keeps_flagged_awaited keeps_flagged_update) simp_all

lemma keeps_flagged_gate_closed: "keeps (flagged slotId cfg v t0) (gate_closed w)"
  unfolding gate_closed_def by (intro flagged_rules keeps_reading keeps_flagged_isNative)

lemma keeps_flagged_show_banner:
  "keeps (flagged k c0 (resolveTesting cfg g) t0) (show_banner w slotId cfg g)"
  unfolding show_banner_def
  by (intro flagged_rules keeps_reading keeps_flagged_loadAdMob keeps_flagged_awaited
      keeps_flagged_update keeps_flagged_console_log) simp_all

lemma keeps_flagged_triggerRewarded:
  "keeps (flagged slotId cfg (resolveTesting cfg g) t0) (triggerRewarded w slotId g)"
  unfolding triggerRewarded_def
  apply (intro flagged_rules keeps_flagged_gate_closed keeps_reading_inv)
  subgoal premises p for closed st
    apply (simp add: flagged_slot [OF p])
    apply (cases cfg; simp add: keeps_returning)
    apply (intro flagged_rules keeps_flagged_loadAdMob keeps_flagged_awaited
        keeps_flagged_console_log; simp)
    done
  done

lemma keeps_flagged_prepareInterstitial:
  "keeps (flagged slotId cfg (resolveTesting cfg g) t0) (prepareInterstitial w slotId g)"
  unfolding prepareInterstitial_def
  apply (intro flagged_rules keeps_flagged_gate_closed keeps_reading_inv)
  subgoal premises p for closed st
    apply (simp add: flagged_slot [OF p])
    apply (cases cfg; simp add: keeps_returning)
    apply (intro flagged_rules keeps_flagged_loadAdMob keeps_flagged_awaited; simp)
    done
  done

lemma keeps_flagged_triggerInterstitial:
  "keeps (flagged slotId cfg (resolveTesting cfg g) t0) (triggerInterstitial w slotId g)"
  unfolding triggerInterstitial_def
  apply (rule keeps_reading_inv)
  subgoal premises p for st
    apply (simp add: flagged_slot [OF p])
    apply (cases cfg; simp add: keeps_returning)
    apply (intro flagged_rules keeps_flagged_loadAdMob keeps_flagged_awaited
        keeps_flagged_update keeps_flagged_console_log; simp)
    done
  done

lemma keeps_flagged_discard:
  "keeps (flagged slotId cfg (resolveTesting cfg g) t0)
     (and_then (triggerRewarded w slotId g) (\<lambda>r. returning ()))"
  by (intro flagged_rules keeps_flagged_triggerRewarded)

lemma keeps_flagged_show_slot:
  "keeps (flagged slotId cfg (resolveTesting cfg g) t0) (show_slot w slotId g)"
  unfolding show_slot_def
  apply (rule keeps_and_then [OF keeps_flagged_gate_closed])
  apply (rule keeps_if, rule keeps_returning)
  apply (rule keeps_reading)
  apply (rule keeps_if, rule keeps_flagged_console_log)
  apply (rule keeps_reading_inv)
  subgoal premises p for closed known st
    apply (simp add: flagged_slot [OF p])
    apply (cases cfg;
        simp add: keeps_flagged_show_banner keeps_flagged_triggerInterstitial
          keeps_flagged_discard)
    done
  done

lemma keeps_flagged_trigger:
  "keeps (flagged slotId cfg (resolveTesting cfg g) t0) (trigger w slotId g)"
  unfolding trigger_def
  apply (rule keeps_and_then [OF keeps_flagged_gate_closed])
  apply (rule keeps_if, rule keeps_returning)
  apply (rule keeps_reading)
  apply (rule keeps_if, rule keeps_flagged_console_log)
  apply (rule keeps_reading_inv)
  subgoal premises p for closed known st
    apply (simp add: flagged_slot [OF p])
    apply (cases cfg;
        simp add: keeps_flagged_console_log keeps_flagged_triggerInterstitial
          keeps_flagged_discard)
    done
  done

lemma keeps_flagged_prepareInterstitialSlot:
  "keeps (flagged slotId cfg (resolveTesting cfg g) t0) (prepareInterstitialSlot w slotId g)"
  unfolding prepareInterstitialSlot_def
  by (intro flagged_rules keeps_flagged_prepareInterstitial)

lemma keeps_flagged_timer:
  "keeps (flagged slotId cfg (resolveTesting cfg g) t0)
     (run_task w (Timeout_prepareInterstitial slotId g))"
  by (simp add: keeps_flagged_prepareInterstitial)

lemma flagged_run:
  assumes "getSlot (registry st) slotId = JConfig cfg"
    and "keeps (flagged slotId cfg v (trace st)) m" and "m st = (r, st')"
  shows "take (length (trace st)) (trace st') = trace st \<and>
     (\<forall>c \<in> set (drop (length (trace st)) (trace st')). \<forall>t. request_flag c = Some t \<longrightarrow> t = v)"
proof -
  have "flagged slotId cfg v (trace st) st"
    using assms(1) by (simp add: flagged_def)
  from assms(2) [unfolded keeps_def, rule_format, OF this assms(3)]
  obtain ext where t: "trace st' = trace st @ ext"
    and fl: "\<forall>c \<in> set ext. request_flag c = None \<or> request_flag c = Some v"
    unfolding flagged_def by auto
  from t have "drop (length (trace st)) (trace st') = ext"
    and "take (length (trace st)) (trace st') = trace st" by simp_all
  with fl show ?thesis by auto
qed

text \<open>
  The only call that these operations start without await is the preload of the next
  interstitial, for the same slot and with the same argument.
\<close>

lemma keeps_scheduled_awaited: "keeps (scheduled t d0) (awaited w c)"
  by (rule keeps_awaited) (simp add: scheduled_def)

lemma keeps_scheduled_update:
  assumes "\<And>st. detached (f st) = detached st"
  shows "keeps (scheduled t d0) (update f)"
  by (rule keeps_update) (simp add: scheduled_def assms)

lemma keeps_scheduled_console_log: "keeps (scheduled t d0) (console_log l)"
  unfolding console_log_def by (rule keeps_scheduled_update) simp

lemma keeps_scheduled_task:
  "keeps (scheduled t d0) (update (\<lambda>st. st\<lparr>detached := detached st @ [t]\<rparr>))"
  by (rule keeps_update) (auto simp add: scheduled_def)

lemmas scheduled_rules =
  keeps_returning keeps_and_then keeps_try_catch keeps_reading keeps_raise keeps_if
  keeps_scheduled_awaited keeps_scheduled_console_log

lemma keeps_scheduled_isNative: "keeps (scheduled t d0) (isNative w)"
  unfolding isNative_def by (intro scheduled_rules)

lemma keeps_scheduled_loadAdMob: "keeps (scheduled t d0) (loadAdMob w)"
  unfolding loadAdMob_def by (intro scheduled_rules keeps_scheduled_update) simp_all

lemma keeps_scheduled_gate_closed: "keeps (scheduled t d0) (gate_closed w)"
  unfolding gate_closed_def by (intro scheduled_rules keeps_scheduled_isNative)

lemma keeps_scheduled_show_banner: "keeps (scheduled t d0) (show_banner w slotId cfg g)"
  unfolding show_banner_def
  by (intro scheduled_rules keeps_scheduled_loadAdMob keeps_scheduled_update) simp_all

lemma keeps_scheduled_triggerRewarded: "keeps (scheduled t d0) (triggerRewarded w slotId g)"
  unfolding triggerRewarded_def
  apply (intro scheduled_rules keeps_scheduled_gate_closed)
  subgoal for closed slot
    apply (cases slot; simp add: keeps_returning)
    subgoal for cfg
      by (cases cfg; simp add: keeps_returning;
          intro scheduled_rules keeps_scheduled_loadAdMob)
    done
  done

lemma keeps_scheduled_prepareInterstitial:
  "keeps (scheduled t d0) (prepareInterstitial w slotId g)"
  unfolding prepareInterstitial_def
  apply (intro scheduled_rules keeps_scheduled_gate_closed)
  subgoal for closed slot
    apply (cases slot; simp add: keeps_returning)
    subgoal for cfg
      by (cases cfg; simp add: keeps_returning;
          intro scheduled_rules keeps_scheduled_loadAdMob)
    done
  done

lemma keeps_scheduled_triggerInterstitial:
  "keeps (scheduled (Timeout_prepareInterstitial slotId g) d0) (triggerInterstitial w slotId g)"
  unfolding triggerInterstitial_def
  apply (intro scheduled_rules)
  subgoal for slot
    apply (cases slot; simp add: keeps_returning)
    subgoal for cfg
      by (cases cfg; simp add: keeps_returning;
          intro scheduled_rules keeps_scheduled_loadAdMob keeps_scheduled_task)
    done
  done

lemma keeps_scheduled_discard:
  "keeps (scheduled t d0) (and_then (triggerRewarded w slotId g) (\<lambda>r. returning ()))"
  by (intro scheduled_rules keeps_scheduled_triggerRewarded)

lemma keeps_scheduled_show_slot:
  "keeps (scheduled (Timeout_prepareInterstitial slotId g) d0) (show_slot w slotId g)"
  unfolding show_slot_def
  apply (intro scheduled_rules keeps_scheduled_gate_closed)
  subgoal for closed known slot
    apply (cases slot; simp add: keeps_returning keeps_raise)
    subgoal for cfg
      by (cases cfg;
          simp add: keeps_scheduled_show_banner keeps_scheduled_triggerInterstitial
            keeps_scheduled_discard)
    done
  done

lemma keeps_scheduled_trigger:
  "keeps (scheduled (Timeout_prepareInterstitial slotId g) d0) (trigger w slotId g)"
  unfolding trigger_def
  apply (intro scheduled_rules keeps_scheduled_gate_closed)
  subgoal for closed known slot
    apply (cases slot; simp add: keeps_returning keeps_raise keeps_scheduled_console_log)
    subgoal for cfg
      by (cases cfg;
          simp add: keeps_scheduled_console_log keeps_scheduled_triggerInterstitial
            keeps_scheduled_discard)
    done
  done

lemma keeps_scheduled_prepareInterstitialSlot:
  "keeps (scheduled t d0) (prepareInterstitialSlot w slotId g)"
  unfolding prepareInterstitialSlot_def
  by (intro scheduled_rules keeps_scheduled_prepareInterstitial)

lemma scheduled_run:
  assumes "keeps (scheduled t (detached st)) m" and "m st = (r, st')"
  shows "\<exists>ds. detached st' = detached st @ ds \<and> (\<forall>d \<in> set ds. d = t)"
proof -
  have "scheduled t (detached st) st" by (simp add: scheduled_def)
  from assms(1) [unfolded keeps_def, rule_format, OF this assms(2)]
  show ?thesis by (simp add: scheduled_def)
qed

text \<open>
  Claim C4. The effective testing flag is the call-site argument whenever one is passed,
  also when it is false and the slot says true, and otherwise the slot's \<open>isTesting\<close>, or
  false when the slot has none. That is what \<open>resolveTesting\<close> computes, and it is the flag
  of every request with a test flag (show banner, prepare interstitial, prepare rewarded)
  that \<open>show\<close>, \<open>trigger\<close>, \<open>triggerRewarded\<close>, \<open>prepareInterstitialSlot\<close> and the preload
  scheduled after an interstitial send for the slot, whatever the outside world answers.
  The only calls these start without await are that preload, for the same slot and with
  the same call-site argument.
\<close>

theorem testing_flag_on_every_path:
  assumes "getSlot (registry st) slotId = JConfig cfg"
    and "m = run_op w (Op_show slotId g) \<or> m = run_op w (Op_trigger slotId g) \<or>
         m = run_op w (Op_triggerRewarded slotId g) \<or>
         m = run_op w (Op_prepareInterstitialSlot slotId g) \<or>
         m = run_task w (Timeout_prepareInterstitial slotId g)"
    and "m st = (r, st')"
  shows "resolveTesting cfg g =
       (case g of
          Some b \<Rightarrow> b
        | None \<Rightarrow> (case isTesting cfg of Present t \<Rightarrow> t | Undefined \<Rightarrow> False | Absent \<Rightarrow> False))
     \<and> take (length (trace st)) (trace st') = trace st
     \<and> (\<forall>c \<in> set (drop (length (trace st)) (trace st')). \<forall>t. request_flag c = Some t \<longrightarrow>
          t = (case g of
                 Some b \<Rightarrow> b
               | None \<Rightarrow>
                   (case isTesting cfg of Present t \<Rightarrow> t | Undefined \<Rightarrow> False | Absent \<Rightarrow> False)))
     \<and> (\<exists>ds. detached st' = detached st @ ds \<and>
          (\<forall>d \<in> set ds. d = Timeout_prepareInterstitial slotId g))"
proof -
  have v: "resolveTesting cfg g =
       (case g of
          Some b \<Rightarrow> b
        | None \<Rightarrow> (case isTesting cfg of Present t \<Rightarrow> t | Undefined \<Rightarrow> False | Absent \<Rightarrow> False))"
    by (simp add: resolveTesting_def split: option.split optional.split)
  have "keeps (flagged slotId cfg (resolveTesting cfg g) (trace st)) m"
    using assms(2)
    by (auto simp add: keeps_flagged_show_slot keeps_flagged_trigger keeps_flagged_discard
        keeps_flagged_prepareInterstitialSlot keeps_flagged_prepareInterstitial)
  from flagged_run [OF assms(1) this assms(3)]
  have f: "take (length (trace st)) (trace st') = trace st"
    and q: "\<forall>c \<in> set (drop (length (trace st)) (trace st')). \<forall>t. request_flag c = Some t \<longrightarrow>
        t = resolveTesting cfg g"
    by simp_all
  have "keeps (scheduled (Timeout_prepareInterstitial slotId g) (detached st)) m"
    using assms(2)
    by (auto simp add: keeps_scheduled_show_slot keeps_scheduled_trigger
        keeps_scheduled_discard keeps_scheduled_prepareInterstitialSlot
        keeps_scheduled_prepareInterstitial)
  from scheduled_run [OF this assms(3)]
  have d: "\<exists>ds. detached st' = detached st @ ds \<and>
      (\<forall>d \<in> set ds. d = Timeout_prepareInterstitial slotId g)" .
  from v f q d show ?thesis by simp
qed

lemma trigger_interstitial_call_site_flag:
  "run_op cooperative_world (Op_trigger ''i1'' (Some True)) ready_state =
     (Returned (),
      ready_state\<lparr>trace := [ImportCapacitorCore, Capacitor_isNativePlatform,
           AdMob_prepareInterstitial ''ad-i'' True, AdMob_showInterstitial],
         detached := [Timeout_prepareInterstitial ''i1'' (Some True)]\<rparr>)"
proof -
  have slot: "getSlot demo_registry ''i1'' = JConfig (InterstitialSlotConfig ''ad-i'' Absent)"
    and known: "hasSlot demo_registry ''i1''"
    by (simp_all add: demo_registry_def defineSlots_def js_set_def getSlot_def js_get_def
        hasSlot_def js_in_def empty_registry_def)
  have gate: "gate_closed cooperative_world ready_state = (Returned False, host_asked ready_state)"
    by (rule gate_closed_host [where n = True, simplified])
      (simp_all add: ready_state_simps isNative_cooperative)
  from slot known gate show ?thesis
    by (simp add: trigger_def triggerInterstitial_def and_then_def try_catch_def reading_def
        awaited_def update_def returning_def loadAdMob_def host_asked_def
        cooperative_world_def resolveTesting_def ready_state_simps)
qed

theorem testing_flag_on_every_path_witness:
  "getSlot (registry ready_state) ''b1'' =
       JConfig (BannerSlotConfig ''ad-1'' Absent Absent Absent (Present True))
   \<and> run_op cooperative_world (Op_show ''b1'' (Some False)) ready_state =
       (Returned (),
        ready_state\<lparr>trace := [ImportCapacitorCore, Capacitor_isNativePlatform,
             AdMob_showBanner ''ad-1'' ADAPTIVE_BANNER BOTTOM_CENTER 0 False],
           currentBannerSlot := Some ''b1''\<rparr>)
   \<and> resolveTesting (BannerSlotConfig ''ad-1'' Absent Absent Absent (Present True)) (Some False)
       = False
   \<and> request_flag (AdMob_showBanner ''ad-1'' ADAPTIVE_BANNER BOTTOM_CENTER 0 False) = Some False
   \<and> getSlot (registry ready_state) ''i1'' = JConfig (InterstitialSlotConfig ''ad-i'' Absent)
   \<and> run_op cooperative_world (Op_trigger ''i1'' (Some True)) ready_state =
       (Returned (),
        ready_state\<lparr>trace := [ImportCapacitorCore, Capacitor_isNativePlatform,
             AdMob_prepareInterstitial ''ad-i'' True, AdMob_showInterstitial],
           detached := [Timeout_prepareInterstitial ''i1'' (Some True)]\<rparr>)
   \<and> resolveTesting (InterstitialSlotConfig ''ad-i'' Absent) (Some True) = True
   \<and> request_flag (AdMob_prepareInterstitial ''ad-i'' True) = Some True"
proof -
  have s1: "getSlot (registry ready_state) ''b1'' =
       JConfig (BannerSlotConfig ''ad-1'' Absent Absent Absent (Present True))"
    by (simp add: ready_state_simps demo_registry_slots)
  have r1: "run_op cooperative_world (Op_show ''b1'' (Some False)) ready_state =
       (Returned (),
        ready_state\<lparr>trace := [ImportCapacitorCore, Capacitor_isNativePlatform,
             AdMob_showBanner ''ad-1'' ADAPTIVE_BANNER BOTTOM_CENTER 0 False],
           currentBannerSlot := Some ''b1''\<rparr>)"
    by (simp add: show_call_site_flag_wins)
  have s2: "getSlot (registry ready_state) ''i1'' = JConfig (InterstitialSlotConfig ''ad-i'' Absent)"
    by (simp add: ready_state_simps demo_registry_def defineSlots_def js_set_def getSlot_def
        js_get_def empty_registry_def)
  note r2 = trigger_interstitial_call_site_flag
  from testing_flag_on_every_path
    [where m = "run_op cooperative_world (Op_show ''b1'' (Some False))"
       and w = cooperative_world and slotId = "''b1''" and g = "Some False"
       and st = ready_state, OF s1 _ r1]
  have a: "resolveTesting (BannerSlotConfig ''ad-1'' Absent Absent Absent (Present True))
      (Some False) = False"
    by simp
  from testing_flag_on_every_path
    [where m = "run_op cooperative_world (Op_trigger ''i1'' (Some True))"
       and w = cooperative_world and slotId = "''i1''" and g = "Some True"
       and st = ready_state, OF s2 _ r2]
  have b: "resolveTesting (InterstitialSlotConfig ''ad-i'' Absent) (Some True) = True"
    by simp
  from s1 r1 a s2 r2 b show ?thesis by simp
qed

end
